theory Spec2Isabelle
  imports Complex_Main "HOL-Library.AList" "HOL-Library.Char_ord" "HOL-Library.List_Lexorder"
    "HOL-Library.Product_Lexorder" "HOL-Library.Sublist"
begin

section \<open>Data model\<close>

text \<open>
  The dashboard (\<^verbatim>\<open>app.js\<close>) works on a dataset with two collections read from JSON:
  projects and expenditure records. A project carries a string \<^verbatim>\<open>id\<close> and categorical
  attributes; an attribute that is absent from the JSON object reads as \<^verbatim>\<open>undefined\<close>,
  modelled by \<open>None\<close>. Strings are byte lists (UTF-8).

  A number of the language is a binary64 value: \<open>Num q\<close> is the finite number whose exact
  value is the rational \<open>q\<close>, and there are the two infinities and \<^verbatim>\<open>NaN\<close>. Every arithmetic
  operation rounds its exact result to binary64. The negative zero is not told apart from
  zero: no operation of the program that is modelled here tells them apart. Monetary
  amounts are numbers; the year and the month of a record are whole numbers, held as
  the JSON text writes them and read through \<open>numeroDe\<close>.
\<close>

datatype numero = Num rat | Infinito | MenosInfinito | NaN

record proyecto =
  id_p :: string
  nombre :: "string option"
  area :: "string option"
  tipo :: "string option"
  estado :: "string option"
  region :: "string option"
  responsable :: "string option"

record montos =
  presupuestado :: numero
  ejecutado :: numero

record registro = montos +
  id_proyecto :: string
  anio :: int
  mes :: int

record dataset =
  proyectos :: "proyecto list"
  registros :: "registro list"

record filtros =
  anio_f :: string
  mes_f :: string
  area_f :: string
  tipo_f :: string
  estadoProy :: string
  region_f :: string

text \<open>The global \<^verbatim>\<open>estado\<close>: \<^verbatim>\<open>datos\<close> is \<^verbatim>\<open>null\<close> until the dataset has been loaded.\<close>

record estado_global =
  datos :: "dataset option"
  filtros :: filtros

datatype error = TypeError

text \<open>
  The result of \<^verbatim>\<open>filtrarDatos\<close>. \<open>proyMap\<close> holds the own properties of the object
  \<^verbatim>\<open>proyMap\<close>; reading the object goes through \<open>leer\<close> below.
\<close>

record resultado =
  registrosFilt :: "registro list"
  proyectosFilt :: "proyecto list"
  proyMap :: "string \<rightharpoonup> proyecto"

section \<open>Plain objects used as dictionaries\<close>

text \<open>
  \<^verbatim>\<open>proyMap\<close> and the accumulators \<^verbatim>\<open>acc\<close> are plain objects, so \<^verbatim>\<open>obj[k]\<close> finds an own
  property, or else a member inherited from \<^verbatim>\<open>Object.prototype\<close>, or else is
  \<^verbatim>\<open>undefined\<close>. The inherited members are functions, and \<^verbatim>\<open>__proto__\<close> reads as the
  prototype object itself: all of them are truthy and none of them has any of the
  properties of a project or of a pair of amounts.
\<close>

definition heredadas :: "string list" where
  "heredadas =
     [''constructor'', ''hasOwnProperty'', ''isPrototypeOf'', ''propertyIsEnumerable'',
      ''toLocaleString'', ''toString'', ''valueOf'', ''__proto__'',
      ''__defineGetter__'', ''__defineSetter__'', ''__lookupGetter__'', ''__lookupSetter__'']"

datatype 'a acceso = Propio 'a | Heredado | Ausente

definition leer :: "(string \<rightharpoonup> 'a) \<Rightarrow> string \<Rightarrow> 'a acceso" where
  "leer obj k =
     (case obj k of
        Some v \<Rightarrow> Propio v
      | None \<Rightarrow> if k \<in> set heredadas then Heredado else Ausente)"

text \<open>\<^verbatim>\<open>proy.area\<close> and the like, on what a lookup in \<^verbatim>\<open>proyMap\<close> found.\<close>

definition atributo :: "proyecto acceso \<Rightarrow> (proyecto \<Rightarrow> string option) \<Rightarrow> string option" where
  "atributo a sel = (case a of Propio p \<Rightarrow> sel p | Heredado \<Rightarrow> None | Ausente \<Rightarrow> None)"

section \<open>Built-ins of the language\<close>

text \<open>A string is truthy when it is not empty.\<close>

definition truthy :: "string \<Rightarrow> bool" where
  "truthy s = (s \<noteq> [])"

text \<open>
  Leading white space as \<^verbatim>\<open>parseInt\<close> skips it: the ASCII characters TAB, LF, VT, FF, CR
  and SP, and the UTF-8 encodings of U+00A0, U+1680, U+2000 to U+200A, U+2028, U+2029,
  U+202F, U+205F, U+3000 and U+FEFF. \<open>espacio s\<close> is the number of bytes of the white
  space character \<open>s\<close> starts with, 0 when it starts with none.
\<close>

definition espacio :: "string \<Rightarrow> nat" where
  "espacio s =
     (case map (of_char :: char \<Rightarrow> nat) (take 3 s) of
        [] \<Rightarrow> 0
      | a # r \<Rightarrow>
          if a \<in> {9, 10, 11, 12, 13, 32} then 1
          else (case r of
              [] \<Rightarrow> 0
            | b # r' \<Rightarrow>
                if a = 194 \<and> b = 160 then 2
                else (case r' of
                    [] \<Rightarrow> 0
                  | c # _ \<Rightarrow>
                      if a = 225 \<and> b = 154 \<and> c = 128 then 3
                      else if a = 226 \<and> b = 128 \<and> (128 \<le> c \<and> c \<le> 138 \<or> c \<in> {168, 169, 175}) then 3
                      else if a = 226 \<and> b = 129 \<and> c = 159 then 3
                      else if a = 227 \<and> b = 128 \<and> c = 128 then 3
                      else if a = 239 \<and> b = 187 \<and> c = 191 then 3
                      else 0)))"

function trimStart :: "string \<Rightarrow> string" where
  "trimStart s = (if s \<noteq> [] \<and> 0 < espacio s then trimStart (drop (espacio s) s) else s)"
  by pat_completeness auto
termination
  by (relation "measure length") auto

text \<open>The value of a character as a digit of the radix, if it is one.\<close>

definition valorDigito :: "int \<Rightarrow> char \<Rightarrow> int option" where
  "valorDigito R c =
     (let n = (of_char c :: int);
          d = (if 48 \<le> n \<and> n \<le> 57 then Some (n - 48)
               else if 97 \<le> n \<and> n \<le> 122 then Some (n - 87)
               else if 65 \<le> n \<and> n \<le> 90 then Some (n - 55)
               else None)
      in case d of None \<Rightarrow> None | Some v \<Rightarrow> if v < R then Some v else None)"

definition valorCadena :: "int \<Rightarrow> string \<Rightarrow> int" where
  "valorCadena R z = foldl (\<lambda>acc c. acc * R + the (valorDigito R c)) 0 z"

section \<open>Numbers and their text\<close>

text \<open>The decimal digits of a whole number that is not negative.\<close>

function dec :: "int \<Rightarrow> string" where
  "dec n = (if n < 10 then [char_of (48 + n)] else dec (n div 10) @ [char_of (48 + n mod 10)])"
  by pat_completeness auto
termination
  by (relation "measure nat") auto

definition padStart :: "nat \<Rightarrow> char \<Rightarrow> string \<Rightarrow> string" where
  "padStart n c s = replicate (n - length s) c @ s"

text \<open>
  Rounding to binary64, to nearest with ties to even, of a rational in the range of the
  normal numbers: \<open>exponente2 a\<close> is the integer part of the binary logarithm of \<open>a > 0\<close>,
  and the significand keeps 53 bits.
\<close>

function log2n :: "int \<Rightarrow> int" where
  "log2n n = (if n < 2 then 0 else 1 + log2n (n div 2))"
  by pat_completeness auto
termination
  by (relation "measure nat") auto

definition pot2 :: "int \<Rightarrow> rat" where
  "pot2 e = (if 0 \<le> e then 2 ^ nat e else 1 / 2 ^ nat (- e))"

definition exponente2 :: "rat \<Rightarrow> int" where
  "exponente2 a =
     (let (n, d) = quotient_of a;
          l = log2n n - log2n d
      in if pot2 l \<le> a then l else l - 1)"

definition redondeoPar :: "rat \<Rightarrow> int" where
  "redondeoPar x =
     (let f = \<lfloor>x\<rfloor>; r = x - of_int f
      in if r < 1 / 2 then f else if 1 / 2 < r then f + 1 else if even f then f else f + 1)"

definition fl :: "rat \<Rightarrow> rat" where
  "fl q =
     (if q = 0 then 0
      else let a = \<bar>q\<bar>;
               u = pot2 (exponente2 a - 52);
               r = of_int (redondeoPar (a / u)) * u
           in if q < 0 then - r else r)"

text \<open>
  \<^verbatim>\<open>String(x)\<close> for a number \<open>x\<close> of at least \<open>10 ^ 21\<close>, which is the exponent notation:
  the fewest digits \<open>k\<close> such that a \<open>k\<close>-digit integer \<open>s\<close> and an exponent \<open>n\<close> give back
  \<open>x\<close> when \<open>s * 10 ^ (n - k)\<close> is rounded to binary64; of two such \<open>s\<close> the nearer to
  \<open>x\<close>, the even one on a tie. \<open>n0\<close> is the number of digits of the integer part of \<open>x\<close>;
  the two integers next to \<open>x / 10 ^ (n0 - k)\<close> are the only ones to try, and the upper
  one may have reached the next power of ten. Seventeen digits always suffice.
\<close>

definition candidatos :: "rat \<Rightarrow> nat \<Rightarrow> nat \<Rightarrow> (int \<times> nat) list" where
  "candidatos x n0 k =
     (let p = 10 ^ (n0 - k);
          s0 = \<lfloor>x / p\<rfloor>;
          c0 = (s0, n0);
          c1 = (if s0 + 1 < 10 ^ k then (s0 + 1, n0) else (10 ^ (k - 1), n0 + 1));
          v0 = fl (of_int s0 * p) = x;
          v1 = fl (of_int (s0 + 1) * p) = x;
          d0 = x - of_int s0 * p;
          d1 = of_int (s0 + 1) * p - x
      in if v0 \<and> v1 then (if d0 < d1 then [c0] else if d1 < d0 then [c1]
                            else if even s0 then [c0] else [c1])
         else if v0 then [c0] else if v1 then [c1] else [])"

definition toStringExp :: "rat \<Rightarrow> string" where
  "toStringExp x =
     (let n0 = length (dec \<lfloor>x\<rfloor>);
          (s, n) = (case concat (map (candidatos x n0) [1..<18]) of
                      [] \<Rightarrow> (\<lfloor>x / 10 ^ (n0 - 17)\<rfloor>, n0)
                    | c # _ \<Rightarrow> c);
          ds = dec s
      in (if length ds = 1 then ds else take 1 ds @ ''.'' @ drop 1 ds)
         @ ''e+'' @ dec (int n - 1))"

text \<open>
  \<^verbatim>\<open>x.toFixed(f)\<close>: the sign, then, below \<open>10 ^ 21\<close>, the integer \<open>n\<close> nearest to
  \<open>x * 10 ^ f\<close> (the larger of two equally near) written with \<open>f\<close> digits after the point,
  and from \<open>10 ^ 21\<close> on the exponent notation of \<^verbatim>\<open>String(x)\<close>.
\<close>

definition toFixed :: "nat \<Rightarrow> rat \<Rightarrow> string" where
  "toFixed f x =
     (let s = (if x < 0 then ''-'' else []);
          a = \<bar>x\<bar>;
          m = (if 10 ^ 21 \<le> a then toStringExp a
               else let n = \<lfloor>a * 10 ^ f + 1 / 2\<rfloor>;
                        m0 = dec n
                    in if f \<noteq> 0
                       then let m2 = replicate (f + 1 - length m0) (CHR ''0'') @ m0;
                                k = length m2
                            in take (k - f) m2 @ ''.'' @ drop (k - f) m2
                       else m0)
      in s @ m)"

definition fmtUSD :: "rat \<Rightarrow> string" where
  "fmtUSD v =
     (if 1000000 \<le> v then ''$'' @ toFixed 1 (fl (v / 1000000)) @ ''M''
      else if 1000 \<le> v then ''$'' @ toFixed 0 (fl (v / 1000)) @ ''K''
      else ''$'' @ toFixed 0 v)"


section \<open>Arithmetic of the language\<close>

text \<open>
  The binary64 number a real result becomes. Below \<open>2 ^ - 1022\<close>, that is with a binary
  exponent under \<open>- 1022\<close>, the numbers are the multiples of \<open>2 ^ - 1074\<close>; elsewhere the
  rounding is \<open>fl\<close>; a result that rounds to \<open>2 ^ 1024\<close> or more, that is to a binary
  exponent of 1024 or more, is an infinity.
\<close>

definition redondear :: "rat \<Rightarrow> numero" where
  "redondear q =
     (if q = 0 then Num 0
      else let a = \<bar>q\<bar>;
               r = (if exponente2 a < - 1022
                    then of_int (redondeoPar (a * 2 ^ 1074)) / 2 ^ 1074
                    else fl a)
           in if 1024 \<le> exponente2 r then (if q < 0 then MenosInfinito else Infinito)
              else Num (if q < 0 then - r else r))"

text \<open>\<^verbatim>\<open>x + y\<close>, \<^verbatim>\<open>x * y\<close> and \<^verbatim>\<open>x / y\<close>.\<close>

fun suma :: "numero \<Rightarrow> numero \<Rightarrow> numero" where
  "suma (Num a) (Num b) = redondear (a + b)"
| "suma NaN y = NaN"
| "suma x NaN = NaN"
| "suma Infinito MenosInfinito = NaN"
| "suma MenosInfinito Infinito = NaN"
| "suma Infinito y = Infinito"
| "suma x Infinito = Infinito"
| "suma MenosInfinito y = MenosInfinito"
| "suma x MenosInfinito = MenosInfinito"

fun multiplicar :: "numero \<Rightarrow> numero \<Rightarrow> numero" where
  "multiplicar (Num a) (Num b) = redondear (a * b)"
| "multiplicar NaN y = NaN"
| "multiplicar x NaN = NaN"
| "multiplicar Infinito (Num b) = (if b = 0 then NaN else if 0 < b then Infinito else MenosInfinito)"
| "multiplicar MenosInfinito (Num b) = (if b = 0 then NaN else if 0 < b then MenosInfinito else Infinito)"
| "multiplicar (Num a) Infinito = (if a = 0 then NaN else if 0 < a then Infinito else MenosInfinito)"
| "multiplicar (Num a) MenosInfinito = (if a = 0 then NaN else if 0 < a then MenosInfinito else Infinito)"
| "multiplicar Infinito Infinito = Infinito"
| "multiplicar MenosInfinito MenosInfinito = Infinito"
| "multiplicar Infinito MenosInfinito = MenosInfinito"
| "multiplicar MenosInfinito Infinito = MenosInfinito"

fun dividir :: "numero \<Rightarrow> numero \<Rightarrow> numero" where
  "dividir (Num a) (Num b) =
     (if b = 0 then (if a = 0 then NaN else if 0 < a then Infinito else MenosInfinito)
      else redondear (a / b))"
| "dividir NaN y = NaN"
| "dividir x NaN = NaN"
| "dividir (Num a) Infinito = Num 0"
| "dividir (Num a) MenosInfinito = Num 0"
| "dividir Infinito (Num b) = (if 0 \<le> b then Infinito else MenosInfinito)"
| "dividir MenosInfinito (Num b) = (if 0 \<le> b then MenosInfinito else Infinito)"
| "dividir Infinito Infinito = NaN"
| "dividir Infinito MenosInfinito = NaN"
| "dividir MenosInfinito Infinito = NaN"
| "dividir MenosInfinito MenosInfinito = NaN"

text \<open>
  \<^verbatim>\<open>x < y\<close> and \<^verbatim>\<open>x <= y\<close>, which are false when either side is \<^verbatim>\<open>NaN\<close>;
  \<^verbatim>\<open>x > y\<close> is \<open>y < x\<close> and \<^verbatim>\<open>x >= y\<close> is \<open>y \<le> x\<close>.
\<close>

instantiation numero :: ord
begin

definition less_numero :: "numero \<Rightarrow> numero \<Rightarrow> bool" where
  "less_numero x y =
     (case x of
        Num a \<Rightarrow> (case y of Num b \<Rightarrow> a < b | Infinito \<Rightarrow> True | MenosInfinito \<Rightarrow> False | NaN \<Rightarrow> False)
      | MenosInfinito \<Rightarrow> (case y of Num b \<Rightarrow> True | Infinito \<Rightarrow> True | MenosInfinito \<Rightarrow> False | NaN \<Rightarrow> False)
      | Infinito \<Rightarrow> False
      | NaN \<Rightarrow> False)"

definition less_eq_numero :: "numero \<Rightarrow> numero \<Rightarrow> bool" where
  "less_eq_numero x y = (x < y \<or> x = y \<and> x \<noteq> NaN)"

instance ..

end

text \<open>
  The sum of a list of numbers as \<^verbatim>\<open>xs.reduce((s, x) => s + x, 0)\<close> adds it:
  from the left, starting from 0, rounding after every addition.
\<close>

definition sumaLista :: "numero list \<Rightarrow> numero" where
  "sumaLista xs = foldl suma (Num 0) xs"

text \<open>
  \<^verbatim>\<open>String(x)\<close> for a whole number \<open>x\<close>. Below \<open>2 ^ 53\<close> in magnitude the digits that give
  the number back are its own digits, \<open>cadenaCorta\<close>. From there on they are the fewest
  digits that do (the \<open>s\<close> and \<open>n\<close> of \<open>toStringExp\<close>): \<open>s\<close> followed by zeros up to \<open>n\<close>
  digits while \<open>n \<le> 21\<close>, the exponent notation beyond. \<open>cadena i\<close> is the text of the
  number that \<open>i\<close> is read as.
\<close>

definition digitosMinimos :: "rat \<Rightarrow> int \<times> nat" where
  "digitosMinimos x =
     (let n0 = length (dec \<lfloor>x\<rfloor>)
      in case concat (map (candidatos x n0) [1..<18]) of
           [] \<Rightarrow> (\<lfloor>x / 10 ^ (n0 - 17)\<rfloor>, n0)
         | c # _ \<Rightarrow> c)"

definition cadenaGrande :: "rat \<Rightarrow> string" where
  "cadenaGrande x =
     (let (s, n) = digitosMinimos x;
          ds = dec s
      in if n \<le> 21 then ds @ replicate (n - length ds) (CHR ''0'') else toStringExp x)"

definition cadenaCorta :: "int \<Rightarrow> string" where
  "cadenaCorta i = (if i < 0 then ''-'' @ dec (- i) else dec i)"

text \<open>
  The number a whole number of the JSON text is read as: the nearest binary64 number,
  which is the number itself up to \<open>2 ^ 53\<close> in magnitude.
\<close>

definition numeroDe :: "int \<Rightarrow> numero" where
  "numeroDe i = redondear (of_int i)"

definition cadena :: "int \<Rightarrow> string" where
  "cadena i =
     (case numeroDe i of
        Num x \<Rightarrow>
          if \<bar>x\<bar> < 2 ^ 53 then cadenaCorta \<lfloor>x\<rfloor>
          else (if x < 0 then ''-'' else []) @ cadenaGrande \<bar>x\<bar>
      | Infinito \<Rightarrow> ''Infinity''
      | MenosInfinito \<Rightarrow> ''-Infinity''
      | NaN \<Rightarrow> ''NaN'')"

text \<open>
  \<^verbatim>\<open>parseInt(s)\<close> with no radix: white space is skipped, then an optional sign, then an
  optional \<^verbatim>\<open>0x\<close> prefix selecting radix 16, then the longest run of digits; no digit at
  all gives \<^verbatim>\<open>NaN\<close>, and the value of the digits is rounded to binary64.
\<close>

definition parseInt :: "string \<Rightarrow> numero" where
  "parseInt s =
     (let t = trimStart s;
          sign = (if take 1 t = ''-'' then - 1 else 1 :: int);
          t1 = (if take 1 t = ''-'' \<or> take 1 t = ''+'' then drop 1 t else t);
          hex = (take 2 t1 = ''0x'' \<or> take 2 t1 = ''0X'');
          R = (if hex then 16 else 10);
          t2 = (if hex then drop 2 t1 else t1);
          z = takeWhile (\<lambda>c. valorDigito R c \<noteq> None) t2
      in if z = [] then NaN else redondear (of_int (sign * valorCadena R z)))"

section \<open>Filtering\<close>

text \<open>
  \<^verbatim>\<open>Object.fromEntries(proyectos.map(p => [p.id, p]))\<close> creates one own property for each
  id; of two projects with the same id the later one stays.
\<close>

definition fromEntries :: "(string \<times> 'a) list \<Rightarrow> (string \<rightharpoonup> 'a)" where
  "fromEntries kvs = map_of (rev kvs)"

text \<open>
  The callback of \<^verbatim>\<open>registros.filter\<close> in \<^verbatim>\<open>filtrarDatos\<close>, with its early returns.
  \<^verbatim>\<open>!proy\<close> holds only when the lookup found nothing.
\<close>

definition pasaFiltro :: "(string \<rightharpoonup> proyecto) \<Rightarrow> filtros \<Rightarrow> registro \<Rightarrow> bool" where
  "pasaFiltro pm f reg =
     (let proy = leer pm (id_proyecto reg)
      in if proy = Ausente then False
         else if truthy (anio_f f) \<and> numeroDe (anio reg) \<noteq> parseInt (anio_f f) then False
         else if truthy (mes_f f) \<and> numeroDe (mes reg) \<noteq> parseInt (mes_f f) then False
         else if truthy (area_f f) \<and> atributo proy area \<noteq> Some (area_f f) then False
         else if truthy (tipo_f f) \<and> atributo proy tipo \<noteq> Some (tipo_f f) then False
         else if truthy (estadoProy f) \<and> atributo proy estado \<noteq> Some (estadoProy f) then False
         else if truthy (region_f f) \<and> atributo proy region \<noteq> Some (region_f f) then False
         else True)"

text \<open>\<^verbatim>\<open>[...new Set(xs)]\<close>: the distinct elements, each at its first occurrence.\<close>

definition unicos :: "'a list \<Rightarrow> 'a list" where
  "unicos xs = rev (remdups (rev xs))"

definition filtrar :: "dataset \<Rightarrow> filtros \<Rightarrow> resultado" where
  "filtrar d f =
     (let pm = fromEntries (map (\<lambda>p. (id_p p, p)) (proyectos d));
          rf = filter (pasaFiltro pm f) (registros d);
          idsFiltrados = unicos (map id_proyecto rf);
          pf = filter (\<lambda>p. id_p p \<in> set idsFiltrados) (proyectos d)
      in \<lparr>registrosFilt = rf, proyectosFilt = pf, proyMap = pm\<rparr>)"

text \<open>
  \<^verbatim>\<open>filtrarDatos()\<close> reads the global state; destructuring \<^verbatim>\<open>estado.datos\<close> while it is
  still \<^verbatim>\<open>null\<close> throws a TypeError.
\<close>

definition filtrarDatos :: "estado_global \<Rightarrow> error + resultado" where
  "filtrarDatos e =
     (case datos e of
        None \<Rightarrow> Inl TypeError
      | Some d \<Rightarrow> Inr (filtrar d (filtros e)))"

text \<open>The handler of the button that clears the filters sets every field to the empty string.\<close>

definition limpiarFiltros :: "estado_global \<Rightarrow> estado_global" where
  "limpiarFiltros e =
     e\<lparr>filtros := \<lparr>anio_f = '''', mes_f = '''', area_f = '''', tipo_f = '''',
                    estadoProy = '''', region_f = ''''\<rparr>\<rparr>"

section \<open>KPIs\<close>

record kpis =
  totalPresupuestado :: numero
  totalEjecutado :: numero
  pctEjecucion :: numero
  activos :: nat

text \<open>The state name \<^verbatim>\<open>'En ejecucion'\<close> with an acute accent on the last o, which is two bytes in UTF-8.\<close>

definition EN_EJECUCION :: string where
  "EN_EJECUCION = ''En ejecuci'' @ [char_of (195 :: nat), char_of (179 :: nat)] @ ''n''"

text \<open>\<^verbatim>\<open>p > 0 ? (e / p * 100) : 0\<close>, the expression of both percentages.\<close>

definition porcentaje :: "numero \<Rightarrow> numero \<Rightarrow> numero" where
  "porcentaje e p = (if Num 0 < p then multiplicar (dividir e p) (Num 100) else Num 0)"

definition calcularKPIs :: "registro list \<Rightarrow> proyecto list \<Rightarrow> kpis" where
  "calcularKPIs rf pf =
     (let tp = foldl (\<lambda>s r. suma s (presupuestado r)) (Num 0) rf;
          te = foldl (\<lambda>s r. suma s (ejecutado r)) (Num 0) rf
      in \<lparr>totalPresupuestado = tp, totalEjecutado = te, pctEjecucion = porcentaje te tp,
          activos = length (filter (\<lambda>p. estado p = Some EN_EJECUCION) pf)\<rparr>)"

text \<open>The first step of \<^verbatim>\<open>actualizarDashboard\<close>: the KPIs of the filtered data.\<close>

definition actualizarDashboard_kpis :: "estado_global \<Rightarrow> error + kpis" where
  "actualizarDashboard_kpis e =
     (case filtrarDatos e of
        Inl err \<Rightarrow> Inl err
      | Inr r \<Rightarrow> Inr (calcularKPIs (registrosFilt r) (proyectosFilt r)))"

section \<open>Grouping\<close>

text \<open>
  An accumulator object is the list of its own properties in the order of their
  creation; an assignment to \<^verbatim>\<open>acc[k]\<close> is \<open>AList.update\<close>.
  \<^verbatim>\<open>Object.entries\<close> lists the keys that are array indices first, in ascending numeric
  order, then the other keys in the order of their creation.
\<close>

definition esDigito :: "char \<Rightarrow> bool" where
  "esDigito c = (CHR ''0'' \<le> c \<and> c \<le> CHR ''9'')"

definition esIndice :: "string \<Rightarrow> bool" where
  "esIndice k =
     (k \<noteq> [] \<and> list_all esDigito k
      \<and> (k = ''0'' \<or> hd k \<noteq> CHR ''0'') \<and> valorCadena 10 k \<le> 4294967294)"

definition Object_entries :: "(string \<times> 'a) list \<Rightarrow> (string \<times> 'a) list" where
  "Object_entries acc =
     sort_key (\<lambda>kv. valorCadena 10 (fst kv)) (filter (\<lambda>kv. esIndice (fst kv)) acc)
     @ filter (\<lambda>kv. \<not> esIndice (fst kv)) acc"

text \<open>
  The step both accumulations share:
  \<^verbatim>\<open>if (!acc[k]) acc[k] = ini;  acc[k].presupuestado += ...;  acc[k].ejecutado += ...\<close>
  When \<open>k\<close> names an inherited member and \<^verbatim>\<open>acc\<close> has no property of its own for it,
  \<^verbatim>\<open>!acc[k]\<close> is false, no property is created, and the two additions write
  \<^verbatim>\<open>undefined + x\<close>, which is \<^verbatim>\<open>NaN\<close>, into properties of the inherited member.
  Nothing in the program finds these again as a truthy value, and \<^verbatim>\<open>acc\<close> stays as it
  was.
\<close>

definition acumular :: "string \<Rightarrow> 'a montos_scheme \<Rightarrow> 'b montos_scheme
    \<Rightarrow> (string \<times> 'a montos_scheme) list \<Rightarrow> (string \<times> 'a montos_scheme) list" where
  "acumular k ini reg acc =
     (case leer (map_of acc) k of
        Heredado \<Rightarrow> acc
      | Ausente \<Rightarrow>
          AList.update k
            (ini\<lparr>presupuestado := suma (presupuestado ini) (presupuestado reg),
                 ejecutado := suma (ejecutado ini) (ejecutado reg)\<rparr>) acc
      | Propio cur \<Rightarrow>
          AList.update k
            (cur\<lparr>presupuestado := suma (presupuestado cur) (presupuestado reg),
                 ejecutado := suma (ejecutado cur) (ejecutado reg)\<rparr>) acc)"

datatype campo = Id | Nombre | Area | Tipo | Estado | Region | Responsable

text \<open>\<^verbatim>\<open>proy[campo]\<close>, and the property key a value becomes: \<^verbatim>\<open>undefined\<close> is \<^verbatim>\<open>"undefined"\<close>.\<close>

fun leerCampo :: "proyecto \<Rightarrow> campo \<Rightarrow> string option" where
  "leerCampo p Id = Some (id_p p)"
| "leerCampo p Nombre = nombre p"
| "leerCampo p Area = area p"
| "leerCampo p Tipo = tipo p"
| "leerCampo p Estado = estado p"
| "leerCampo p Region = region p"
| "leerCampo p Responsable = responsable p"

definition claveProp :: "string option \<Rightarrow> string" where
  "claveProp v = (case v of None \<Rightarrow> ''undefined'' | Some s \<Rightarrow> s)"

text \<open>\<^verbatim>\<open>proy ? proy[campo] : 'N/A'\<close> as a property key.\<close>

definition clave :: "(string \<rightharpoonup> proyecto) \<Rightarrow> campo \<Rightarrow> registro \<Rightarrow> string" where
  "clave pm c reg =
     claveProp (case leer pm (id_proyecto reg) of
                  Ausente \<Rightarrow> Some ''N/A''
                | Propio proy \<Rightarrow> leerCampo proy c
                | Heredado \<Rightarrow> None)"

definition agruparPorCampoProy ::
    "registro list \<Rightarrow> (string \<rightharpoonup> proyecto) \<Rightarrow> campo \<Rightarrow> (string \<times> montos) list" where
  "agruparPorCampoProy rf pm c =
     foldl (\<lambda>acc reg. acumular (clave pm c reg) \<lparr>presupuestado = Num 0, ejecutado = Num 0\<rparr> reg acc)
       [] rf"

record bucket = montos +
  label :: string

definition MESES_LABELS :: "string list" where
  "MESES_LABELS = [[], ''Ene'', ''Feb'', ''Mar'', ''Abr'', ''May'', ''Jun'',
                   ''Jul'', ''Ago'', ''Sep'', ''Oct'', ''Nov'', ''Dic'']"

definition etiquetaMes :: "int \<Rightarrow> string" where
  "etiquetaMes m =
     (if 0 \<le> m \<and> nat m < length MESES_LABELS then MESES_LABELS ! nat m else ''undefined'')"

definition claveMes :: "registro \<Rightarrow> string" where
  "claveMes reg = cadena (anio reg) @ ''-'' @ padStart 2 (CHR ''0'') (cadena (mes reg))"

text \<open>
  \<^verbatim>\<open>a.localeCompare(b)\<close> on the keys is the lexicographic order of the characters. The
  keys consist of digits and hyphens and, for numbers from \<open>10 ^ 21\<close> on, of the point,
  the letter e and the plus sign of the exponent notation or of the letters of
  \<^verbatim>\<open>Infinity\<close>; the collation orders these as their codes do wherever two keys can
  differ in them.
\<close>

definition agruparPorMes :: "registro list \<Rightarrow> (string \<times> bucket) list" where
  "agruparPorMes rf =
     sort_key fst
       (Object_entries
          (foldl (\<lambda>acc reg. acumular (claveMes reg)
                    \<lparr>presupuestado = Num 0, ejecutado = Num 0,
                     label = etiquetaMes (mes reg) @ '' '' @ cadena (anio reg)\<rparr> reg acc) [] rf))"

record item = montos +
  id_i :: string
  proy :: "proyecto acceso"
  pct :: numero

text \<open>
  The rows of \<^verbatim>\<open>top10Proyectos\<close> before they are sorted:
  \<^verbatim>\<open>Object.entries(acc).map(...)\<close>.
\<close>

definition filasProyectos :: "registro list \<Rightarrow> (string \<rightharpoonup> proyecto) \<Rightarrow> item list" where
  "filasProyectos rf pm =
     map (\<lambda>(k, m). \<lparr>presupuestado = presupuestado m, ejecutado = ejecutado m,
                      id_i = k, proy = leer pm k,
                      pct = porcentaje (ejecutado m) (presupuestado m)\<rparr>)
       (Object_entries
          (foldl (\<lambda>acc reg. acumular (id_proyecto reg)
                    \<lparr>presupuestado = Num 0, ejecutado = Num 0\<rparr> reg acc) [] rf))"

text \<open>
  The comparator \<^verbatim>\<open>(a, b) => b.ejecutado - a.ejecutado\<close>. Of a difference only the sign
  matters: it is that of the exact difference, since two binary64 numbers that differ
  have a difference that does not round to zero; equal infinities give \<^verbatim>\<open>NaN\<close>, as does
  every difference with \<^verbatim>\<open>NaN\<close>, and sorting reads \<^verbatim>\<open>NaN\<close> as 0.
\<close>

fun signoResta :: "numero \<Rightarrow> numero \<Rightarrow> int option" where
  "signoResta (Num a) (Num b) = Some (if a < b then - 1 else if a = b then 0 else 1)"
| "signoResta NaN y = None"
| "signoResta x NaN = None"
| "signoResta Infinito Infinito = None"
| "signoResta MenosInfinito MenosInfinito = None"
| "signoResta Infinito y = Some 1"
| "signoResta MenosInfinito y = Some (- 1)"
| "signoResta x Infinito = Some (- 1)"
| "signoResta x MenosInfinito = Some 1"

definition comparar :: "item \<Rightarrow> item \<Rightarrow> int" where
  "comparar a b = (case signoResta (ejecutado b) (ejecutado a) of None \<Rightarrow> 0 | Some s \<Rightarrow> s)"

text \<open>
  \<^verbatim>\<open>xs.sort(comparar)\<close>. Sorting is stable. When no amount is \<^verbatim>\<open>NaN\<close> the comparator
  orders the rows by \<open>rango\<close>, the larger amount first. When some amount is \<^verbatim>\<open>NaN\<close> and
  all comparisons are ties, the array stays as it is; when they are not all ties the
  comparator is not consistent and the language leaves the order to the implementation,
  which is the result \<open>None\<close>.
\<close>

definition rango :: "item \<Rightarrow> int \<times> rat" where
  "rango a =
     (case ejecutado a of
        Infinito \<Rightarrow> (- 1, 0)
      | Num q \<Rightarrow> (0, - q)
      | MenosInfinito \<Rightarrow> (1, 0)
      | NaN \<Rightarrow> (2, 0))"

definition ordenar :: "item list \<Rightarrow> item list option" where
  "ordenar xs =
     (if list_all (\<lambda>a. ejecutado a \<noteq> NaN) xs then Some (sort_key rango xs)
      else if list_all (\<lambda>a. list_all (\<lambda>b. comparar a b = 0) xs) xs then Some xs
      else None)"

definition top10Proyectos ::
    "registro list \<Rightarrow> (string \<rightharpoonup> proyecto) \<Rightarrow> item list option" where
  "top10Proyectos rf pm = map_option (take 10) (ordenar (filasProyectos rf pm))"

text \<open>The list \<^verbatim>\<open>top\<close> of \<^verbatim>\<open>renderChartPresupuesto\<close>.\<close>

definition renderChartPresupuesto_top ::
    "registro list \<Rightarrow> (string \<rightharpoonup> proyecto) \<Rightarrow> item list option" where
  "renderChartPresupuesto_top rf pm = map_option (take 8) (top10Proyectos rf pm)"

text \<open>The two classifications \<^verbatim>\<open>renderTablaTop10\<close> computes for a row.\<close>

definition progClass :: "item \<Rightarrow> string" where
  "progClass it =
     (let sobreEjec = (presupuestado it < ejecutado it)
      in if Num 90 \<le> pct it \<and> \<not> sobreEjec then ''prog-green''
         else if pct it < Num 50 then ''prog-red''
         else if sobreEjec then ''prog-red''
         else ''prog-yellow'')"

definition pctColor :: "item \<Rightarrow> string" where
  "pctColor it =
     (let sobreEjec = (presupuestado it < ejecutado it)
      in if Num 90 \<le> pct it \<and> \<not> sobreEjec then ''var(--teal)''
         else if pct it < Num 50 \<or> sobreEjec then ''var(--red-alert)''
         else ''var(--gold)'')"

section \<open>The selection, as the specification words it\<close>

text \<open>
  A record passes when every set field of the selection equals the record's own year or
  month, or the attribute of its project; an unset field asks nothing.
\<close>

definition cumpleSeleccion :: "proyecto \<Rightarrow> filtros \<Rightarrow> registro \<Rightarrow> bool" where
  "cumpleSeleccion p f reg =
     ((anio_f f \<noteq> [] \<longrightarrow> parseInt (anio_f f) = numeroDe (anio reg))
      \<and> (mes_f f \<noteq> [] \<longrightarrow> parseInt (mes_f f) = numeroDe (mes reg))
      \<and> (area_f f \<noteq> [] \<longrightarrow> area p = Some (area_f f))
      \<and> (tipo_f f \<noteq> [] \<longrightarrow> tipo p = Some (tipo_f f))
      \<and> (estadoProy f \<noteq> [] \<longrightarrow> estado p = Some (estadoProy f))
      \<and> (region_f f \<noteq> [] \<longrightarrow> region p = Some (region_f f)))"

section \<open>Example data\<close>

text \<open>The dataset of the specification's end-to-end example: two projects, three records.\<close>

definition sinFiltros :: filtros where
  "sinFiltros = \<lparr>anio_f = [], mes_f = [], area_f = [], tipo_f = [], estadoProy = [], region_f = []\<rparr>"

definition P1 :: proyecto where
  "P1 = \<lparr>id_p = ''P1'', nombre = Some ''Chancado'', area = Some ''Mina A'', tipo = Some ''Expansion'',
         estado = Some EN_EJECUCION, region = Some ''Norte'', responsable = Some ''Ana''\<rparr>"

definition P2 :: proyecto where
  "P2 = \<lparr>id_p = ''P2'', nombre = Some ''Relaves'', area = Some ''Mina B'', tipo = Some ''Sostenimiento'',
         estado = Some ''Cerrado'', region = Some ''Sur'', responsable = Some ''Luis''\<rparr>"

definition R1 :: registro where
  "R1 = \<lparr>presupuestado = Num 1000, ejecutado = Num 900, id_proyecto = ''P1'', anio = 2024, mes = 1\<rparr>"

definition R2 :: registro where
  "R2 = \<lparr>presupuestado = Num 500, ejecutado = Num 600, id_proyecto = ''P1'', anio = 2024, mes = 2\<rparr>"

definition R3 :: registro where
  "R3 = \<lparr>presupuestado = Num 2000, ejecutado = Num 1000, id_proyecto = ''P2'', anio = 2024, mes = 1\<rparr>"

definition datosEjemplo :: dataset where
  "datosEjemplo = \<lparr>proyectos = [P1, P2], registros = [R1, R2, R3]\<rparr>"

definition estadoEjemplo :: estado_global where
  "estadoEjemplo = \<lparr>datos = Some datosEjemplo, filtros = sinFiltros\<lparr>area_f := ''Mina A''\<rparr>\<rparr>"

text \<open>A dataset with a record of an unknown project and a project without records.\<close>

definition R9 :: registro where
  "R9 = \<lparr>presupuestado = Num 700, ejecutado = Num 100, id_proyecto = ''P9'', anio = 2024, mes = 3\<rparr>"

definition datosSueltos :: dataset where
  "datosSueltos = \<lparr>proyectos = [P1, P2], registros = [R1, R9]\<rparr>"

definition estadoSueltos :: estado_global where
  "estadoSueltos = \<lparr>datos = Some datosSueltos, filtros = sinFiltros\<lparr>anio_f := ''2024''\<rparr>\<rparr>"

text \<open>
  A dataset with a record whose \<^verbatim>\<open>id_proyecto\<close> is \<^verbatim>\<open>"constructor"\<close>, which no project has
  for an id, and the state that holds it with no filter set.
\<close>

definition RConstructor :: registro where
  "RConstructor = \<lparr>presupuestado = Num 4000, ejecutado = Num 5000, id_proyecto = ''constructor'',
                     anio = 2024, mes = 1\<rparr>"

definition datosHeredado :: dataset where
  "datosHeredado = \<lparr>proyectos = [P1], registros = [R1, RConstructor]\<rparr>"

definition estadoHeredado :: estado_global where
  "estadoHeredado = \<lparr>datos = Some datosHeredado, filtros = sinFiltros\<rparr>"

text \<open>A loaded dataset without records, and a record that spends without a budget.\<close>

definition estadoVacio :: estado_global where
  "estadoVacio = \<lparr>datos = Some \<lparr>proyectos = [P1, P2], registros = []\<rparr>, filtros = sinFiltros\<rparr>"

definition RSinPresupuesto :: registro where
  "RSinPresupuesto = \<lparr>presupuestado = Num 0, ejecutado = Num 300, id_proyecto = ''P1'',
                        anio = 2024, mes = 5\<rparr>"

text \<open>The specification's example of an over-executed project: 120 spent on a budget of 100.\<close>

definition RSobre :: registro where
  "RSobre = \<lparr>presupuestado = Num 100, ejecutado = Num 120, id_proyecto = ''P1'', anio = 2024, mes = 6\<rparr>"

definition itemSobre :: item where
  "itemSobre = \<lparr>presupuestado = Num 100, ejecutado = Num 120, id_i = ''P1'', proy = Ausente,
                 pct = Num 120\<rparr>"

text \<open>A project whose JSON object has no \<^verbatim>\<open>area\<close>, and a dataset with a record of it.\<close>

definition PSinArea :: proyecto where
  "PSinArea = \<lparr>id_p = ''P3'', nombre = Some ''Camino'', area = None, tipo = Some ''Expansion'',
               estado = Some ''Pausado'', region = Some ''Norte'', responsable = Some ''Eva''\<rparr>"

definition RSinArea :: registro where
  "RSinArea = \<lparr>presupuestado = Num 400, ejecutado = Num 250, id_proyecto = ''P3'', anio = 2024, mes = 4\<rparr>"

definition datosSinArea :: dataset where
  "datosSinArea = \<lparr>proyectos = [P1, PSinArea], registros = [R1, RSinArea, R2]\<rparr>"

text \<open>Eleven projects with one record each, spending 10, 20, ... 110 on a budget of 100.\<close>

definition registrosOnce :: "registro list" where
  "registrosOnce =
     map (\<lambda>n. \<lparr>presupuestado = Num 100, ejecutado = Num (of_int (10 * n)),
                 id_proyecto = ''Q'' @ dec n, anio = 2024, mes = 1\<rparr>) [1..11]"

text \<open>Records of December 2024 and January 2025, and of the years 999 and 1000.\<close>

definition RDic2024 :: registro where
  "RDic2024 = \<lparr>presupuestado = Num 300, ejecutado = Num 200, id_proyecto = ''P1'', anio = 2024, mes = 12\<rparr>"

definition REne2025 :: registro where
  "REne2025 = \<lparr>presupuestado = Num 500, ejecutado = Num 450, id_proyecto = ''P2'', anio = 2025, mes = 1\<rparr>"

definition RDic999 :: registro where
  "RDic999 = \<lparr>presupuestado = Num 10, ejecutado = Num 20, id_proyecto = ''P1'', anio = 999, mes = 12\<rparr>"

definition REne1000 :: registro where
  "REne1000 = \<lparr>presupuestado = Num 30, ejecutado = Num 40, id_proyecto = ''P1'', anio = 1000, mes = 1\<rparr>"

text \<open>
  Three records of one project and one month with the amounts \<open>2 ^ 53\<close>, 1 and 1,
  whose exact sum, \<open>2 ^ 53 + 2\<close>, is itself a binary64 number.
\<close>

definition RGrande :: registro where
  "RGrande = \<lparr>presupuestado = Num 9007199254740992, ejecutado = Num 9007199254740992,
                id_proyecto = ''P1'', anio = 2024, mes = 1\<rparr>"

definition RUno :: registro where
  "RUno = \<lparr>presupuestado = Num 1, ejecutado = Num 1, id_proyecto = ''P1'', anio = 2024, mes = 1\<rparr>"

definition datosGrandes :: dataset where
  "datosGrandes = \<lparr>proyectos = [P1], registros = [RGrande, RUno, RUno]\<rparr>"

definition estadoGrandes :: estado_global where
  "estadoGrandes = \<lparr>datos = Some datosGrandes, filtros = sinFiltros\<rparr>"

section \<open>Decimal numerals\<close>

declare dec.simps [simp del]

lemma dec_menor: "n < 10 \<Longrightarrow> dec n = [char_of (48 + n)]"
  by (subst dec.simps) simp

lemma dec_mayor: "10 \<le> n \<Longrightarrow> dec n = dec (n div 10) @ [char_of (48 + n mod 10)]"
  by (subst dec.simps) simp

lemma digito_nat:
  assumes "0 \<le> d" "d \<le> 9"
  shows "(of_char (char_of (48 + d :: int)) :: nat) = 48 + nat d"
proof -
  have "char_of (48 + d) = char_of (int (48 + nat d))"
    using assms by simp
  also have "\<dots> = char_of (48 + nat d)"
    by (rule char_of_nat)
  finally have "(of_char (char_of (48 + d)) :: nat) = (48 + nat d) mod 256"
    by (simp only: of_char_of)
  with assms show ?thesis by simp
qed

lemma digito_int:
  assumes "0 \<le> d" "d \<le> 9"
  shows "(of_char (char_of (48 + d :: int)) :: int) = 48 + d"
  using assms by simp

lemma digito_menor:
  assumes "0 \<le> d" "d \<le> 9" "0 \<le> e" "e \<le> 9"
  shows "char_of (48 + d :: int) < char_of (48 + e) \<longleftrightarrow> d < e"
  using assms by (simp only: less_char_def digito_nat) auto

lemma digito_igual:
  assumes "0 \<le> d" "d \<le> 9" "0 \<le> e" "e \<le> 9"
  shows "char_of (48 + d :: int) = char_of (48 + e) \<longleftrightarrow> d = e"
  using assms by simp

lemma esDigito_digito:
  assumes "0 \<le> d" "d \<le> 9"
  shows "esDigito (char_of (48 + d :: int))"
  using assms by (simp only: esDigito_def less_eq_char_def digito_nat) simp

lemma esDigito_guion: "\<not> esDigito (CHR ''-'')"
  by (simp add: esDigito_def)

lemma valorDigito_digito:
  assumes "0 \<le> d" "d \<le> 9"
  shows "valorDigito 10 (char_of (48 + d :: int)) = Some d"
  using assms by (simp add: valorDigito_def Let_def)

lemma valorCadena_snoc:
  "valorCadena R (z @ [c]) = valorCadena R z * R + the (valorDigito R c)"
  by (simp add: valorCadena_def)

lemma dec_digitos: "0 \<le> n \<Longrightarrow> dec n \<noteq> [] \<and> list_all esDigito (dec n)"
proof (induction n rule: dec.induct)
  case (1 n)
  show ?case
  proof (cases "n < 10")
    case True
    with "1.prems" show ?thesis
      by (simp add: dec_menor esDigito_digito)
  next
    case False
    then have "0 \<le> n div 10" "0 \<le> n mod 10" "n mod 10 \<le> 9" by simp_all
    with False "1.IH" show ?thesis
      by (simp add: dec_mayor esDigito_digito)
  qed
qed

lemma valorCadena_dec: "0 \<le> n \<Longrightarrow> valorCadena 10 (dec n) = n"
proof (induction n rule: dec.induct)
  case (1 n)
  show ?case
  proof (cases "n < 10")
    case True
    with "1.prems" show ?thesis
      by (simp add: dec_menor valorCadena_def valorDigito_digito)
  next
    case False
    then have "0 \<le> n div 10" "0 \<le> n mod 10" "n mod 10 \<le> 9" by simp_all
    with False "1.IH" show ?thesis
      by (simp add: dec_mayor valorCadena_snoc valorDigito_digito)
  qed
qed

lemma length_dec_1: "0 \<le> n \<Longrightarrow> length (dec n) = Suc 0 \<longleftrightarrow> n < 10"
proof (cases "n < 10")
  case True
  then show ?thesis by (simp add: dec_menor)
next
  case False
  assume "0 \<le> n"
  with False have "dec (n div 10) \<noteq> []"
    by (simp add: dec_digitos)
  with False show ?thesis
    by (simp add: dec_mayor)
qed

text \<open>A text of \<^verbatim>\<open>String(i)\<close>, possibly padded with zeros, gives the number back.\<close>

lemma valorCadena_ceros: "valorCadena 10 (replicate k (CHR ''0'') @ z) = valorCadena 10 z"
proof (induction k)
  case 0
  show ?case by simp
next
  case (Suc k)
  have "valorCadena 10 (CHR ''0'' # w) = valorCadena 10 w" for w
    by (simp add: valorCadena_def valorDigito_def)
  with Suc show ?case by simp
qed

lemma hd_dec: "0 \<le> n \<Longrightarrow> hd (dec n) \<noteq> CHR ''-''"
proof -
  assume "0 \<le> n"
  then have "dec n \<noteq> []" "list_all esDigito (dec n)"
    by (simp_all add: dec_digitos)
  then have "esDigito (hd (dec n))"
    by (cases "dec n") simp_all
  then show ?thesis
    using esDigito_guion by auto
qed

lemma cadenaCorta_inversa:
  "(if hd (cadenaCorta i) = CHR ''-'' then - valorCadena 10 (tl (cadenaCorta i)) else valorCadena 10 (cadenaCorta i)) = i"
  by (simp add: cadenaCorta_def valorCadena_dec hd_dec)

lemma cadenaCorta_inj: "cadenaCorta i = cadenaCorta j \<Longrightarrow> i = j"
  by (metis cadenaCorta_inversa)

lemma cadenaCorta_no_vacia: "cadenaCorta i \<noteq> []"
  by (simp add: cadenaCorta_def dec_digitos)

lemma padStart_inversa:
  "(if hd (padStart 2 (CHR ''0'') (cadenaCorta i)) = CHR ''-''
    then - valorCadena 10 (tl (padStart 2 (CHR ''0'') (cadenaCorta i)))
    else valorCadena 10 (padStart 2 (CHR ''0'') (cadenaCorta i))) = i"
proof (cases "i < 0")
  case True
  then have "dec (- i) \<noteq> []" by (simp add: dec_digitos)
  then have "2 \<le> length (cadenaCorta i)"
    using True by (cases "dec (- i)") (simp_all add: cadenaCorta_def)
  then have "padStart 2 (CHR ''0'') (cadenaCorta i) = cadenaCorta i"
    by (simp add: padStart_def)
  then show ?thesis by (simp only: cadenaCorta_inversa)
next
  case False
  then have c: "cadenaCorta i = dec i" by (simp add: cadenaCorta_def)
  from False have d: "dec i \<noteq> []" "hd (dec i) \<noteq> CHR ''-''"
    by (simp_all add: dec_digitos hd_dec)
  have "hd (padStart 2 (CHR ''0'') (dec i)) \<noteq> CHR ''-''"
    using d by (cases "2 - length (dec i)") (simp_all add: padStart_def)
  with False show ?thesis
    unfolding c by (simp add: padStart_def valorCadena_ceros valorCadena_dec)
qed

lemma padStart_inj:
  "padStart 2 (CHR ''0'') (cadenaCorta i) = padStart 2 (CHR ''0'') (cadenaCorta j) \<Longrightarrow> i = j"
  by (metis padStart_inversa)

text \<open>The year is the part of the key before the hyphen that separates it from the month.\<close>

lemma cadenaCorta_forma:
  "\<exists>s d. cadenaCorta i = s @ d \<and> (s = [] \<or> s = ''-'') \<and> d \<noteq> [] \<and> list_all esDigito d"
proof (cases "i < 0")
  case True
  then have "cadenaCorta i = ''-'' @ dec (- i)" "dec (- i) \<noteq> []" "list_all esDigito (dec (- i))"
    by (simp_all add: cadenaCorta_def dec_digitos)
  then show ?thesis by blast
next
  case False
  then have "cadenaCorta i = [] @ dec i" "dec i \<noteq> []" "list_all esDigito (dec i)"
    by (simp_all add: cadenaCorta_def dec_digitos)
  then show ?thesis by blast
qed

lemma anio_de_clave:
  "(if hd (cadenaCorta i @ ''-'' @ b) = CHR ''-''
    then CHR ''-'' # takeWhile esDigito (tl (cadenaCorta i @ ''-'' @ b))
    else takeWhile esDigito (cadenaCorta i @ ''-'' @ b)) = cadenaCorta i"
proof -
  obtain s d where f: "cadenaCorta i = s @ d" "s = [] \<or> s = ''-''" "d \<noteq> []" "list_all esDigito d"
    using cadenaCorta_forma by blast
  have t: "takeWhile esDigito (d @ ''-'' @ b) = d"
    using f(4) by (simp add: takeWhile_append list_all_iff esDigito_guion)
  from f(3,4) have h: "hd d \<noteq> CHR ''-''"
    using esDigito_guion by (cases d) auto
  from f(2) show ?thesis
  proof
    assume "s = []"
    with f h t show ?thesis by (cases d) simp_all
  next
    assume "s = ''-''"
    with f t show ?thesis by simp
  qed
qed

text \<open>
  Where the lexicographic order of the keys is the order of the dates: between numerals
  of the same length, and so between keys whose years have the same number of digits
  and whose months have at most two.
\<close>

lemma divmod_orden:
  "(a div 10 < b div 10 \<or> (a div 10 = b div 10 \<and> a mod 10 < b mod 10)) \<longleftrightarrow> a < b"
  for a b :: int
proof -
  have "a = 10 * (a div 10) + a mod 10" "b = 10 * (b div 10) + b mod 10"
    by simp_all
  moreover have "0 \<le> a mod 10" "a mod 10 < 10" "0 \<le> b mod 10" "b mod 10 < 10"
    by simp_all
  ultimately show ?thesis by linarith
qed

lemma lex_append_igual:
  fixes xs ys :: string
  assumes "length xs = length ys"
  shows "xs @ us < ys @ vs \<longleftrightarrow> xs < ys \<or> (xs = ys \<and> us < vs)"
  using assms by (induction xs ys rule: list_induct2) auto

lemma dec_inj: "0 \<le> a \<Longrightarrow> 0 \<le> b \<Longrightarrow> dec a = dec b \<Longrightarrow> a = b"
  by (metis valorCadena_dec)

lemma dec_orden:
  "0 \<le> a \<Longrightarrow> 0 \<le> b \<Longrightarrow> length (dec a) = length (dec b) \<Longrightarrow> dec a < dec b \<longleftrightarrow> a < b"
proof (induction a arbitrary: b rule: dec.induct)
  case (1 a)
  show ?case
  proof (cases "a < 10")
    case True
    with "1.prems" have "length (dec b) = Suc 0"
      by (simp add: dec_menor)
    with "1.prems" have "b < 10"
      by (simp add: length_dec_1)
    with True "1.prems" show ?thesis
      by (simp add: dec_menor digito_menor del: char_of_quasi_inj)
  next
    case False
    with length_dec_1[OF "1.prems"(1)] have "length (dec a) \<noteq> Suc 0"
      by blast
    with "1.prems"(3) have "length (dec b) \<noteq> Suc 0"
      by simp
    with length_dec_1[OF "1.prems"(2)] have b: "\<not> b < 10"
      by blast
    from False b have r: "0 \<le> a div 10" "0 \<le> b div 10" "0 \<le> a mod 10" "a mod 10 \<le> 9"
        "0 \<le> b mod 10" "b mod 10 \<le> 9"
      by simp_all
    from False b "1.prems" have l: "length (dec (a div 10)) = length (dec (b div 10))"
      by (simp add: dec_mayor)
    from "1.IH"[OF False r(1,2) l]
    have ih: "dec (a div 10) < dec (b div 10) \<longleftrightarrow> a div 10 < b div 10" .
    have eq: "dec (a div 10) = dec (b div 10) \<longleftrightarrow> a div 10 = b div 10"
      using r(1,2) by (auto dest: dec_inj)
    have "dec a < dec b \<longleftrightarrow>
        dec (a div 10) < dec (b div 10)
        \<or> (dec (a div 10) = dec (b div 10) \<and> [char_of (48 + a mod 10)] < [char_of (48 + b mod 10)])"
      using False b by (simp only: dec_mayor not_less lex_append_igual[OF l])
    also have "\<dots> \<longleftrightarrow> a div 10 < b div 10 \<or> (a div 10 = b div 10 \<and> a mod 10 < b mod 10)"
      using r by (simp add: ih eq digito_menor del: char_of_quasi_inj)
    also have "\<dots> \<longleftrightarrow> a < b"
      by (rule divmod_orden)
    finally show ?thesis .
  qed
qed

lemma pad2_forma:
  assumes "0 \<le> m" "m \<le> 99"
  shows "padStart 2 (CHR ''0'') (cadenaCorta m) = [char_of (48 + m div 10), char_of (48 + m mod 10)]"
proof (cases "m < 10")
  case True
  have "char_of (48 :: int) = CHR ''0''"
    by (simp add: char_of_def)
  with True assms show ?thesis
    by (simp add: padStart_def cadenaCorta_def dec_menor)
next
  case False
  with assms have "m div 10 < 10" by simp
  with False assms show ?thesis
    by (simp add: padStart_def cadenaCorta_def dec_mayor dec_menor)
qed

lemma pad2_orden:
  assumes "0 \<le> m" "m \<le> 99" "0 \<le> n" "n \<le> 99"
  shows "padStart 2 (CHR ''0'') (cadenaCorta m) < padStart 2 (CHR ''0'') (cadenaCorta n) \<longleftrightarrow> m < n"
proof -
  from assms have r: "0 \<le> m div 10" "m div 10 \<le> 9" "0 \<le> m mod 10" "m mod 10 \<le> 9"
      "0 \<le> n div 10" "n div 10 \<le> 9" "0 \<le> n mod 10" "n mod 10 \<le> 9"
    by simp_all
  have "padStart 2 (CHR ''0'') (cadenaCorta m) < padStart 2 (CHR ''0'') (cadenaCorta n)
      \<longleftrightarrow> m div 10 < n div 10 \<or> (m div 10 = n div 10 \<and> m mod 10 < n mod 10)"
    using r by (simp add: pad2_forma[OF assms(1,2)] pad2_forma[OF assms(3,4)]
        digito_menor digito_igual del: char_of_quasi_inj)
  also have "\<dots> \<longleftrightarrow> m < n"
    by (rule divmod_orden)
  finally show ?thesis .
qed

section \<open>Rounding to binary64\<close>

declare log2n.simps [simp del]

lemma pot2_powi: "pot2 e = power_int 2 e"
  by (simp add: pot2_def power_int_def power_one_over inverse_eq_divide)

lemma pot2_pos: "0 < pot2 e"
  by (simp add: pot2_powi)

lemma pot2_resta: "pot2 (a - b) = pot2 a / pot2 b"
  by (simp add: pot2_powi power_int_diff)

lemma pot2_nat: "0 \<le> e \<Longrightarrow> pot2 e = 2 ^ nat e"
  by (simp add: pot2_def)

lemma log2n_cotas:
  "1 \<le> n \<Longrightarrow> 0 \<le> log2n n \<and> 2 ^ nat (log2n n) \<le> n \<and> n < 2 * 2 ^ nat (log2n n)"
proof (induction n rule: log2n.induct)
  case (1 n)
  show ?case
  proof (cases "n < 2")
    case True
    with "1.prems" show ?thesis
      by (subst (1 2 3) log2n.simps) simp
  next
    case False
    then have "1 \<le> n div 2" by simp
    with "1.IH"[OF False] have ih: "0 \<le> log2n (n div 2)"
        "2 ^ nat (log2n (n div 2)) \<le> n div 2" "n div 2 < 2 * 2 ^ nat (log2n (n div 2))"
      by simp_all
    have l: "log2n n = 1 + log2n (n div 2)"
      using False by (subst log2n.simps) simp
    have n: "nat (1 + log2n (n div 2)) = Suc (nat (log2n (n div 2)))"
      using ih(1) by simp
    have "2 * (n div 2) \<le> n" "n \<le> 2 * (n div 2) + 1"
      by simp_all
    with ih show ?thesis
      unfolding l n by simp
  qed
qed

lemma exponente2_cota:
  assumes "0 < a"
  shows "pot2 (exponente2 a) \<le> a"
proof -
  obtain n d where q: "quotient_of a = (n, d)"
    by (cases "quotient_of a")
  then have d: "0 < d" and a: "a = of_int n / of_int d"
    by (simp_all add: quotient_of_denom_pos quotient_of_div)
  with assms have n: "0 < n"
    by (simp add: zero_less_divide_iff)
  define l where "l = log2n n - log2n d"
  have e: "exponente2 a = (if pot2 l \<le> a then l else l - 1)"
    by (simp add: exponente2_def q l_def Let_def)
  show ?thesis
  proof (cases "pot2 l \<le> a")
    case True
    with e show ?thesis by simp
  next
    case False
    from n d have cn: "0 \<le> log2n n" "2 ^ nat (log2n n) \<le> n"
      and cd: "0 \<le> log2n d" "d < 2 * 2 ^ nat (log2n d)"
      using log2n_cotas[of n] log2n_cotas[of d] by simp_all
    have "l - 1 = log2n n - (log2n d + 1)"
      by (simp add: l_def)
    then have "pot2 (l - 1) = pot2 (log2n n) / pot2 (log2n d + 1)"
      by (simp only: pot2_resta)
    also have "\<dots> = 2 ^ nat (log2n n) / (2 * 2 ^ nat (log2n d))"
      using cn(1) cd(1) by (simp add: pot2_nat nat_add_distrib)
    also have "\<dots> \<le> of_int n / of_int d"
    proof (rule frac_le)
      show "(0::rat) \<le> of_int n" using n by simp
      have "(of_int (2 ^ nat (log2n n)) :: rat) \<le> of_int n"
        using cn(2) by (simp only: of_int_le_iff)
      then show "(2::rat) ^ nat (log2n n) \<le> of_int n" by simp
      show "(0::rat) < of_int d" using d by simp
      have "(of_int d :: rat) \<le> of_int (2 * 2 ^ nat (log2n d))"
        using cd(2) by (simp only: of_int_le_iff)
      then show "(of_int d :: rat) \<le> 2 * 2 ^ nat (log2n d)" by simp
    qed
    finally have "pot2 (l - 1) \<le> a"
      by (simp only: a)
    with e False show ?thesis by simp
  qed
qed

lemma redondeoPar_cerca: "\<bar>of_int (redondeoPar x) - x\<bar> \<le> 1 / 2"
proof -
  have "of_int \<lfloor>x\<rfloor> \<le> x" "x < of_int \<lfloor>x\<rfloor> + 1"
    by linarith+
  then show ?thesis
    by (auto simp: redondeoPar_def Let_def abs_le_iff)
qed

lemma redondeoPar_piso: "\<lfloor>x\<rfloor> \<le> redondeoPar x"
  by (simp add: redondeoPar_def Let_def)

lemma fl_positivo:
  assumes "0 < q"
  shows "0 \<le> fl q" and "\<bar>fl q - q\<bar> \<le> q / 2 ^ 53"
proof -
  define u where "u = pot2 (exponente2 q - 52)"
  define m where "m = redondeoPar (q / u)"
  have u: "0 < u" by (simp add: u_def pot2_pos)
  have f: "fl q = of_int m * u"
    using assms by (simp add: fl_def Let_def u_def m_def)
  have "0 \<le> \<lfloor>q / u\<rfloor>"
    using assms u by simp
  with redondeoPar_piso[of "q / u"] have "0 \<le> m"
    unfolding m_def by linarith
  with u show "0 \<le> fl q"
    by (simp add: f)
  have "u = pot2 (exponente2 q) / 2 ^ 52"
    by (simp add: u_def pot2_resta pot2_nat)
  with exponente2_cota[OF assms] have uq: "u \<le> q / 2 ^ 52"
    by (simp add: divide_right_mono)
  have "fl q - q = (of_int m - q / u) * u"
    using u by (simp add: f left_diff_distrib)
  then have "\<bar>fl q - q\<bar> = \<bar>of_int m - q / u\<bar> * \<bar>u\<bar>"
    by (simp only: abs_mult)
  then have "\<bar>fl q - q\<bar> = \<bar>of_int m - q / u\<bar> * u"
    using u by simp
  also have "\<bar>of_int m - q / u\<bar> * u \<le> (1 / 2) * u"
    using redondeoPar_cerca[of "q / u"] u
    by (intro mult_right_mono) (simp_all add: m_def)
  also have "\<dots> \<le> (1 / 2) * (q / 2 ^ 52)"
    using uq by simp
  also have "\<dots> = q / 2 ^ 53"
    by simp
  finally show "\<bar>fl q - q\<bar> \<le> q / 2 ^ 53" .
qed

lemma fl_menos: "fl (- q) = - fl q"
  by (simp add: fl_def Let_def)

lemma fl_error: "\<bar>fl q - q\<bar> \<le> \<bar>q\<bar> / 2 ^ 53"
proof -
  consider "q = 0" | "0 < q" | "0 < - q" by linarith
  then show ?thesis
  proof cases
    case 1
    then show ?thesis by (simp add: fl_def)
  next
    case 2
    with fl_positivo(2)[OF 2] show ?thesis by simp
  next
    case 3
    from fl_positivo(2)[OF 3] have "\<bar>- fl q + q\<bar> \<le> - q / 2 ^ 53"
      by (simp add: fl_menos)
    moreover have "\<bar>- fl q + q\<bar> = \<bar>fl q - q\<bar>"
      by (simp add: abs_minus_commute)
    ultimately show ?thesis
      using 3 by simp
  qed
qed

lemma fl_nonneg: "0 \<le> q \<Longrightarrow> 0 \<le> fl q"
  using fl_positivo(1)[of q] by (cases "q = 0") (simp_all add: fl_def)

lemma fl_cota:
  assumes "0 \<le> q"
  shows "fl q \<le> 2 * q"
proof -
  have "\<bar>fl q - q\<bar> \<le> q / 2 ^ 53"
    using fl_error[of q] assms by simp
  moreover have "fl q - q \<le> \<bar>fl q - q\<bar>"
    by simp
  moreover have "q / 2 ^ 53 \<le> q"
    using assms by (simp add: field_simps)
  ultimately show ?thesis by linarith
qed

text \<open>
  The binary exponent is bounded on both sides, and whole numbers up to \<open>2 ^ 53\<close> in
  magnitude are binary64 numbers whose sums, while they stay in that range, are exact.
\<close>

lemma redondeoPar_entero: "redondeoPar (of_int z) = z"
  by (simp add: redondeoPar_def Let_def)

lemma fl_entero_pos:
  assumes "0 < n" "n \<le> 2 ^ 53"
  shows "fl (of_int n) = of_int n"
proof -
  define a :: rat where "a = of_int n"
  define e where "e = exponente2 a"
  from assms have a: "1 \<le> a" "a \<le> 2 ^ 53" "0 < a"
    unfolding a_def by (simp_all add: of_int_le_numeral_power_cancel_iff)
  have le: "pot2 e \<le> a"
    unfolding e_def using exponente2_cota[OF a(3)] .
  have e53: "e \<le> 53"
  proof (rule ccontr)
    assume "\<not> e \<le> 53"
    then have "54 \<le> e" by simp
    then have "(2 :: rat) ^ 54 \<le> 2 ^ nat e"
      by (intro power_increasing) simp_all
    moreover have "pot2 e = 2 ^ nat e"
      using \<open>54 \<le> e\<close> by (simp add: pot2_def)
    ultimately show False using le a(2) by simp
  qed
  have "\<exists>z. a / pot2 (e - 52) = of_int z"
  proof (cases "e \<le> 52")
    case True
    then have "pot2 (e - 52) = 1 / 2 ^ nat (52 - e)"
      by (cases "e = 52") (simp_all add: pot2_def)
    then have "a / pot2 (e - 52) = of_int (n * 2 ^ nat (52 - e))"
      by (simp add: a_def)
    then show ?thesis by blast
  next
    case False
    with e53 have e: "e = 53" by simp
    then have "pot2 e = 2 ^ 53" by (simp add: pot2_def)
    with le a(2) have "a = 2 ^ 53" by simp
    moreover have "pot2 (e - 52) = 2" using e by (simp add: pot2_def)
    ultimately have "a / pot2 (e - 52) = of_int (2 ^ 52)" by simp
    then show ?thesis by blast
  qed
  then obtain z where z: "a / pot2 (e - 52) = of_int z" by blast
  have "pot2 (e - 52) \<noteq> 0" using pot2_pos[of "e - 52"] by simp
  with z have "of_int z * pot2 (e - 52) = a"
    by (simp add: field_simps)
  then have "fl a = a"
    using a(3) z by (simp add: fl_def Let_def e_def[symmetric] redondeoPar_entero)
  then show ?thesis by (simp add: a_def)
qed

lemma fl_entero: "\<bar>n\<bar> \<le> 2 ^ 53 \<Longrightarrow> fl (of_int n) = of_int n"
proof -
  assume h: "\<bar>n\<bar> \<le> 2 ^ 53"
  consider "n = 0" | "0 < n" | "0 < - n" by linarith
  then show ?thesis
  proof cases
    case 1
    then show ?thesis by (simp add: fl_def)
  next
    case 2
    with h show ?thesis by (simp add: fl_entero_pos)
  next
    case 3
    with h have "fl (of_int (- n)) = of_int (- n)"
      by (intro fl_entero_pos) simp_all
    then show ?thesis
      using fl_menos[of "of_int n"] by simp
  qed
qed

lemma exponente2_techo:
  assumes "0 < a"
  shows "a < pot2 (exponente2 a + 1)"
proof -
  obtain n d where q: "quotient_of a = (n, d)"
    by (cases "quotient_of a")
  then have d: "0 < d" and a: "a = of_int n / of_int d"
    by (simp_all add: quotient_of_denom_pos quotient_of_div)
  with assms have n: "0 < n"
    by (simp add: zero_less_divide_iff)
  define l where "l = log2n n - log2n d"
  have e: "exponente2 a = (if pot2 l \<le> a then l else l - 1)"
    by (simp add: exponente2_def q l_def Let_def)
  show ?thesis
  proof (cases "pot2 l \<le> a")
    case False
    with e show ?thesis by simp
  next
    case True
    from n d have cn: "0 \<le> log2n n" "n < 2 * 2 ^ nat (log2n n)"
      and cd: "0 \<le> log2n d" "2 ^ nat (log2n d) \<le> d"
      using log2n_cotas[of n] log2n_cotas[of d] by simp_all
    have "of_int n / of_int d < (2 * 2 ^ nat (log2n n)) / (2 ^ nat (log2n d) :: rat)"
    proof (rule frac_less)
      show "(0::rat) \<le> of_int n" using n by simp
      have "(of_int n :: rat) < of_int (2 * 2 ^ nat (log2n n))"
        using cn(2) by (simp only: of_int_less_iff)
      then show "(of_int n :: rat) < 2 * 2 ^ nat (log2n n)" by simp
      show "(0::rat) < 2 ^ nat (log2n d)" by simp
      have "(of_int (2 ^ nat (log2n d)) :: rat) \<le> of_int d"
        using cd(2) by (simp only: of_int_le_iff)
      then show "(2::rat) ^ nat (log2n d) \<le> of_int d" by simp
    qed
    also have "(2 * 2 ^ nat (log2n n)) / (2 ^ nat (log2n d) :: rat) = pot2 (log2n n + 1) / pot2 (log2n d)"
      using cn(1) cd(1) by (simp add: pot2_nat nat_add_distrib)
    also have "\<dots> = pot2 (log2n n + 1 - log2n d)"
      by (simp only: pot2_resta)
    also have "log2n n + 1 - log2n d = l + 1"
      by (simp add: l_def)
    finally have "a < pot2 (l + 1)"
      by (simp only: a)
    with e True show ?thesis by simp
  qed
qed

lemma pot2_no_positivo: "k \<le> 0 \<Longrightarrow> pot2 k \<le> 1"
  by (cases "k = 0") (simp_all add: pot2_def)

lemma exponente2_no_negativo:
  assumes "1 \<le> a"
  shows "0 \<le> exponente2 a"
proof (rule ccontr)
  assume "\<not> 0 \<le> exponente2 a"
  then have "pot2 (exponente2 a + 1) \<le> 1"
    by (intro pot2_no_positivo) simp
  moreover have "a < pot2 (exponente2 a + 1)"
    using assms by (intro exponente2_techo) simp
  ultimately show False using assms by simp
qed

lemma exponente2_acotado:
  assumes "0 < a" "a < 2 ^ n"
  shows "exponente2 a < int n"
proof (rule ccontr)
  assume "\<not> exponente2 a < int n"
  then have n: "int n \<le> exponente2 a" by simp
  then have "pot2 (exponente2 a) = 2 ^ nat (exponente2 a)"
    by (simp add: pot2_def)
  moreover have "(2 :: rat) ^ n \<le> 2 ^ nat (exponente2 a)"
    using n by (intro power_increasing) simp_all
  ultimately show False
    using exponente2_cota[OF assms(1)] assms(2) by simp
qed

lemma redondear_normal:
  assumes "q \<noteq> 0" "- 1022 \<le> exponente2 \<bar>q\<bar>" "exponente2 (fl \<bar>q\<bar>) < 1024"
  shows "redondear q = Num (fl q)"
proof -
  from assms have c: "\<not> exponente2 \<bar>q\<bar> < - 1022" "\<not> 1024 \<le> exponente2 (fl \<bar>q\<bar>)" "(q = 0) = False"
    by simp_all
  have r: "redondear q = Num (if q < 0 then - fl \<bar>q\<bar> else fl \<bar>q\<bar>)"
    unfolding redondear_def Let_def by (simp only: c if_False)
  show ?thesis
  proof (cases "q < 0")
    case True
    then have "\<bar>q\<bar> = - q" by simp
    with True r show ?thesis by (simp add: fl_menos)
  next
    case False
    then have "\<bar>q\<bar> = q" by simp
    with False r show ?thesis by simp
  qed
qed

lemma redondear_cero: "redondear 0 = Num 0"
  by (simp add: redondear_def)

lemma redondear_entero:
  assumes "\<bar>n\<bar> \<le> 2 ^ 53"
  shows "redondear (of_int n) = Num (of_int n)"
proof (cases "n = 0")
  case True
  then show ?thesis by (simp add: redondear_cero)
next
  case False
  define a :: rat where "a = of_int \<bar>n\<bar>"
  from False have "1 \<le> \<bar>n\<bar>" by simp
  then have a1: "1 \<le> a"
    unfolding a_def by (simp only: of_int_1_le_iff)
  have aa: "\<bar>rat_of_int n\<bar> = a"
    by (simp add: a_def)
  have fa: "fl a = a"
    using fl_entero[of "\<bar>n\<bar>"] assms by (simp add: a_def)
  have "a \<le> 2 ^ 53"
    using assms unfolding a_def by (simp only: of_int_le_numeral_power_cancel_iff)
  also have "\<dots> < (2 :: rat) ^ 1024"
    by (intro power_strict_increasing) simp_all
  finally have "exponente2 a < int 1024"
    using a1 by (intro exponente2_acotado) simp_all
  then have nover: "exponente2 (fl a) < 1024"
    by (simp add: fa)
  have nsub: "- 1022 \<le> exponente2 a"
    using exponente2_no_negativo[OF a1] by simp
  have "rat_of_int n \<noteq> 0"
    using False by simp
  then have "redondear (of_int n) = Num (fl (of_int n))"
    by (rule redondear_normal) (simp_all only: aa nsub nover)
  then show ?thesis
    using fl_entero[OF assms] by simp
qed

lemma suma_enteros:
  "\<bar>a + b\<bar> \<le> 2 ^ 53 \<Longrightarrow> suma (Num (of_int a)) (Num (of_int b)) = Num (of_int (a + b))"
  using redondear_entero[of "a + b"] by simp

lemma foldl_suma_enteros:
  "\<bar>a\<bar> + (\<Sum>n\<leftarrow>ns. \<bar>n\<bar>) \<le> 2 ^ 53 \<Longrightarrow>
   foldl suma (Num (of_int a)) (map (\<lambda>n. Num (of_int n)) ns) = Num (of_int (a + sum_list ns))"
proof (induction ns arbitrary: a)
  case Nil
  then show ?case by simp
next
  case (Cons n ns)
  have nn: "0 \<le> (\<Sum>n\<leftarrow>ns. \<bar>n\<bar>)"
    by (rule sum_list_nonneg) auto
  with Cons.prems have "\<bar>a + n\<bar> \<le> 2 ^ 53" by simp
  then have s: "suma (Num (of_int a)) (Num (of_int n)) = Num (of_int (a + n))"
    by (rule suma_enteros)
  have "\<bar>a + n\<bar> + (\<Sum>n\<leftarrow>ns. \<bar>n\<bar>) \<le> 2 ^ 53"
    using Cons.prems by simp
  from Cons.IH[OF this]
  have ih: "foldl suma (Num (of_int (a + n))) (map (\<lambda>n. Num (of_int n)) ns)
      = Num (of_int (a + n + sum_list ns))" .
  have "foldl suma (Num (of_int a)) (map (\<lambda>n. Num (of_int n)) (n # ns))
      = foldl suma (Num (of_int (a + n))) (map (\<lambda>n. Num (of_int n)) ns)"
    by (simp only: list.map foldl_Cons s)
  also note ih
  also have "a + n + sum_list ns = a + sum_list (n # ns)" by simp
  finally show ?case .
qed

lemma sumaLista_enteros:
  "(\<Sum>n\<leftarrow>ns. \<bar>n\<bar>) \<le> 2 ^ 53 \<Longrightarrow>
   sumaLista (map (\<lambda>n. Num (of_int n)) ns) = Num (of_int (sum_list ns))"
  using foldl_suma_enteros[of 0 ns] by (simp add: sumaLista_def)

section \<open>Filtering\<close>

lemma fromEntries_Some:
  "fromEntries (map (\<lambda>p. (id_p p, p)) ps) k = Some p \<Longrightarrow> p \<in> set ps \<and> id_p p = k"
  unfolding fromEntries_def by (auto dest!: map_of_SomeD)

lemma fromEntries_None:
  "fromEntries (map (\<lambda>p. (id_p p, p)) ps) k = None \<longleftrightarrow> k \<notin> id_p ` set ps"
  unfolding fromEntries_def by (simp add: map_of_eq_None_iff image_image)

lemma leer_Ausente: "leer obj k = Ausente \<longleftrightarrow> obj k = None \<and> k \<notin> set heredadas"
  by (simp add: leer_def split: option.splits)

lemma leer_Propio: "leer obj k = Propio v \<longleftrightarrow> obj k = Some v"
  by (simp add: leer_def split: option.splits)

lemma leer_Heredado: "leer obj k = Heredado \<longleftrightarrow> obj k = None \<and> k \<in> set heredadas"
  by (simp add: leer_def split: option.splits)

lemma retornos_tempranos:
  "(if a then False else if b then False else if c then False else if d then False
    else if e then False else if g then False else True)
   = (\<not> a \<and> \<not> b \<and> \<not> c \<and> \<not> d \<and> \<not> e \<and> \<not> g)"
  by simp

text \<open>
  What the callback answers, by what the lookup finds: with a project of that id, the
  selection as the specification words it; with an inherited member, the tests of the
  year and the month alone, provided no filter on an attribute is set; with nothing,
  no.
\<close>

lemma pasaFiltro_propio:
  assumes "pm (id_proyecto reg) = Some p"
  shows "pasaFiltro pm f reg \<longleftrightarrow> cumpleSeleccion p f reg"
proof -
  from assms have l: "leer pm (id_proyecto reg) = Propio p"
    by (simp add: leer_Propio)
  have n: "(Propio p = Ausente) = False" by simp
  show ?thesis
    unfolding pasaFiltro_def Let_def l cumpleSeleccion_def truthy_def atributo_def
      acceso.case n if_False retornos_tempranos
    by (intro arg_cong2[where f="(\<and>)"]) auto
qed

lemma pasaFiltro_ausente:
  assumes "pm (id_proyecto reg) = None" "id_proyecto reg \<notin> set heredadas"
  shows "\<not> pasaFiltro pm f reg"
proof -
  from assms have "leer pm (id_proyecto reg) = Ausente"
    by (simp add: leer_Ausente)
  then show ?thesis by (simp add: pasaFiltro_def)
qed

lemma pasaFiltro_heredado:
  assumes "pm (id_proyecto reg) = None" "id_proyecto reg \<in> set heredadas"
  shows "pasaFiltro pm f reg \<longleftrightarrow>
     (anio_f f \<noteq> [] \<longrightarrow> parseInt (anio_f f) = numeroDe (anio reg))
     \<and> (mes_f f \<noteq> [] \<longrightarrow> parseInt (mes_f f) = numeroDe (mes reg))
     \<and> area_f f = [] \<and> tipo_f f = [] \<and> estadoProy f = [] \<and> region_f f = []"
proof -
  from assms have l: "leer pm (id_proyecto reg) = Heredado"
    by (simp add: leer_Heredado)
  have n: "((Heredado :: proyecto acceso) = Ausente) = False" by simp
  show ?thesis
    unfolding pasaFiltro_def Let_def l truthy_def atributo_def
      acceso.case n if_False retornos_tempranos
    by (intro arg_cong2[where f="(\<and>)"]) auto
qed

lemma set_unicos: "set (unicos xs) = set xs"
  by (simp add: unicos_def)

lemma filtrar_proyMap:
  "proyMap (filtrar d f) = fromEntries (map (\<lambda>p. (id_p p, p)) (proyectos d))"
  by (simp add: filtrar_def Let_def)

lemma filtrar_registrosFilt:
  "registrosFilt (filtrar d f) = filter (pasaFiltro (proyMap (filtrar d f)) f) (registros d)"
  by (simp add: filtrar_def Let_def)

lemma filtrar_proyectosFilt:
  "proyectosFilt (filtrar d f) =
     filter (\<lambda>p. id_p p \<in> id_proyecto ` set (registrosFilt (filtrar d f))) (proyectos d)"
  by (simp add: filtrar_def Let_def set_unicos)

lemma filtrarDatos_Some: "datos e = Some d \<Longrightarrow> filtrarDatos e = Inr (filtrar d (filtros e))"
  by (simp add: filtrarDatos_def)

text \<open>
  Claim C1 does not hold of the program. With no filter set, a record whose
  \<^verbatim>\<open>id_proyecto\<close> is \<^verbatim>\<open>"constructor"\<close> is kept although no project has that id:
  \<^verbatim>\<open>proyMap\<close> has no property of its own for it, the lookup finds the inherited member,
  which is truthy, and the callback goes on to return true. The filtered records of
  the dataset with the project P1 and the records R1 and RConstructor are both records.
\<close>

theorem filtrarDatos_heredado:
  "datos estadoHeredado = Some datosHeredado
   \<and> filtros estadoHeredado = sinFiltros
   \<and> filtrarDatos estadoHeredado = Inr (filtrar datosHeredado sinFiltros)
   \<and> map id_p (proyectos datosHeredado) = [''P1'']
   \<and> id_proyecto RConstructor = ''constructor''
   \<and> proyMap (filtrar datosHeredado sinFiltros) ''constructor'' = None
   \<and> leer (proyMap (filtrar datosHeredado sinFiltros)) ''constructor'' = Heredado
   \<and> registrosFilt (filtrar datosHeredado sinFiltros) = [R1, RConstructor]"
proof -
  have h: "datos estadoHeredado = Some datosHeredado" "filtros estadoHeredado = sinFiltros"
    by (simp_all add: estadoHeredado_def)
  have c: "filtrarDatos estadoHeredado = Inr (filtrar datosHeredado sinFiltros)"
    by (simp add: filtrarDatos_def h)
  have i: "map id_p (proyectos datosHeredado) = [''P1'']" "id_proyecto RConstructor = ''constructor''"
    by (simp_all add: datosHeredado_def P1_def RConstructor_def)
  have m: "proyMap (filtrar datosHeredado sinFiltros) ''constructor'' = None"
    by code_simp
  have l: "leer (proyMap (filtrar datosHeredado sinFiltros)) ''constructor'' = Heredado"
    by code_simp
  have r: "registrosFilt (filtrar datosHeredado sinFiltros) = [R1, RConstructor]"
    by code_simp
  from h c i m l r show ?thesis by (intro conjI)
qed

section \<open>Clearing the filters\<close>

lemma limpiarFiltros_simps:
  "datos (limpiarFiltros e) = datos e" "filtros (limpiarFiltros e) = sinFiltros"
  by (simp_all add: limpiarFiltros_def sinFiltros_def)

lemma pasaFiltro_sinFiltros:
  "pasaFiltro pm sinFiltros reg \<longleftrightarrow> leer pm (id_proyecto reg) \<noteq> Ausente"
  by (simp add: pasaFiltro_def sinFiltros_def truthy_def Let_def)

lemma registrosFilt_sinFiltros:
  "registrosFilt (filtrar d sinFiltros) =
     filter (\<lambda>reg. id_proyecto reg \<in> id_p ` set (proyectos d) \<or> id_proyecto reg \<in> set heredadas)
       (registros d)"
  by (subst filtrar_registrosFilt, rule filter_cong)
     (auto simp add: pasaFiltro_sinFiltros leer_Ausente filtrar_proyMap fromEntries_None)

lemma proyectosFilt_sinFiltros:
  "proyectosFilt (filtrar d sinFiltros) =
     filter (\<lambda>p. id_p p \<in> id_proyecto ` set (registros d)) (proyectos d)"
proof -
  have "id_p p \<in> id_proyecto ` set (registrosFilt (filtrar d sinFiltros))
        \<longleftrightarrow> id_p p \<in> id_proyecto ` set (registros d)"
    if "p \<in> set (proyectos d)" for p
    using that unfolding registrosFilt_sinFiltros by force
  then show ?thesis
    by (subst filtrar_proyectosFilt, intro filter_cong) simp_all
qed

text \<open>
  Claim C2, as stated, is false: with every field empty the records of unknown projects
  are still left out, and the projects no record refers to are not among the filtered
  projects.
\<close>

theorem limpiar_identidad_counterexample:
  "datos estadoSueltos = Some datosSueltos
   \<and> filtrarDatos (limpiarFiltros estadoSueltos) = Inr (filtrar datosSueltos sinFiltros)
   \<and> registrosFilt (filtrar datosSueltos sinFiltros) \<noteq> registros datosSueltos
   \<and> proyectosFilt (filtrar datosSueltos sinFiltros) \<noteq> proyectos datosSueltos"
proof -
  have h: "datos estadoSueltos = Some datosSueltos"
    by (simp add: estadoSueltos_def)
  have c: "filtrarDatos (limpiarFiltros estadoSueltos) = Inr (filtrar datosSueltos sinFiltros)"
    by (simp add: filtrarDatos_def limpiarFiltros_simps h)
  have r: "registrosFilt (filtrar datosSueltos sinFiltros) = [R1]"
    by code_simp
  have p: "proyectosFilt (filtrar datosSueltos sinFiltros) = [P1]"
    by code_simp
  have "[R1] \<noteq> registros datosSueltos" "[P1] \<noteq> proyectos datosSueltos"
    by (simp_all add: datosSueltos_def)
  with h c r p show ?thesis by simp
qed

text \<open>
  Claim C2, amended. After the filters are cleared, the records whose \<^verbatim>\<open>id_proyecto\<close> is
  the id of a project are all kept, in their order; a record whose \<^verbatim>\<open>id_proyecto\<close> is
  not the id of a project is left out, unless it names a member that every object
  inherits, of which nothing is said here; and the filtered projects are the projects
  some record refers to. So the filtered records are the full record list when every
  record has its project, and the filtered projects are the full project list when
  every project has a record.
\<close>

theorem limpiar_identidad:
  assumes "datos e = Some d"
  shows "filtrarDatos (limpiarFiltros e) = Inr (filtrar d sinFiltros)
    \<and> filter (\<lambda>reg. id_proyecto reg \<in> id_p ` set (proyectos d)) (registrosFilt (filtrar d sinFiltros)) =
        filter (\<lambda>reg. id_proyecto reg \<in> id_p ` set (proyectos d)) (registros d)
    \<and> (\<forall>reg \<in> set (registrosFilt (filtrar d sinFiltros)).
          reg \<in> set (registros d)
          \<and> (id_proyecto reg \<in> id_p ` set (proyectos d) \<or> id_proyecto reg \<in> set heredadas))
    \<and> proyectosFilt (filtrar d sinFiltros) =
        filter (\<lambda>p. id_p p \<in> id_proyecto ` set (registros d)) (proyectos d)
    \<and> ((\<forall>reg \<in> set (registros d). id_proyecto reg \<in> id_p ` set (proyectos d))
         \<longrightarrow> registrosFilt (filtrar d sinFiltros) = registros d)
    \<and> ((\<forall>p \<in> set (proyectos d). id_p p \<in> id_proyecto ` set (registros d))
         \<longrightarrow> proyectosFilt (filtrar d sinFiltros) = proyectos d)"
proof (intro conjI impI ballI)
  show "filtrarDatos (limpiarFiltros e) = Inr (filtrar d sinFiltros)"
    using assms by (simp add: filtrarDatos_def limpiarFiltros_simps)
  show "filter (\<lambda>reg. id_proyecto reg \<in> id_p ` set (proyectos d)) (registrosFilt (filtrar d sinFiltros)) =
        filter (\<lambda>reg. id_proyecto reg \<in> id_p ` set (proyectos d)) (registros d)"
    unfolding registrosFilt_sinFiltros filter_filter by (rule filter_cong) auto
  show "proyectosFilt (filtrar d sinFiltros) =
        filter (\<lambda>p. id_p p \<in> id_proyecto ` set (registros d)) (proyectos d)"
    by (rule proyectosFilt_sinFiltros)
next
  fix reg assume "reg \<in> set (registrosFilt (filtrar d sinFiltros))"
  then show "reg \<in> set (registros d)"
    and "id_proyecto reg \<in> id_p ` set (proyectos d) \<or> id_proyecto reg \<in> set heredadas"
    unfolding registrosFilt_sinFiltros by simp_all
next
  assume "\<forall>reg \<in> set (registros d). id_proyecto reg \<in> id_p ` set (proyectos d)"
  then show "registrosFilt (filtrar d sinFiltros) = registros d"
    unfolding registrosFilt_sinFiltros by (simp add: filter_id_conv)
next
  assume "\<forall>p \<in> set (proyectos d). id_p p \<in> id_proyecto ` set (registros d)"
  then show "proyectosFilt (filtrar d sinFiltros) = proyectos d"
    unfolding proyectosFilt_sinFiltros by (simp add: filter_id_conv)
qed

theorem limpiar_identidad_witness:
  "datos estadoEjemplo = Some datosEjemplo
   \<and> filtrarDatos (limpiarFiltros estadoEjemplo) = Inr (filtrar datosEjemplo sinFiltros)
   \<and> registrosFilt (filtrar datosEjemplo sinFiltros) = [R1, R2, R3]
   \<and> proyectosFilt (filtrar datosEjemplo sinFiltros) = [P1, P2]"
proof -
  have h: "datos estadoEjemplo = Some datosEjemplo"
    by (simp add: estadoEjemplo_def)
  have a: "\<forall>reg \<in> set (registros datosEjemplo). id_proyecto reg \<in> id_p ` set (proyectos datosEjemplo)"
    by (simp add: datosEjemplo_def P1_def P2_def R1_def R2_def R3_def)
  have b: "\<forall>p \<in> set (proyectos datosEjemplo). id_p p \<in> id_proyecto ` set (registros datosEjemplo)"
    by (simp add: datosEjemplo_def P1_def P2_def R1_def R2_def R3_def)
  from limpiar_identidad[OF h] a b
  have "filtrarDatos (limpiarFiltros estadoEjemplo) = Inr (filtrar datosEjemplo sinFiltros)"
    "registrosFilt (filtrar datosEjemplo sinFiltros) = registros datosEjemplo"
    "proyectosFilt (filtrar datosEjemplo sinFiltros) = proyectos datosEjemplo"
    by blast+
  with h show ?thesis by (simp add: datosEjemplo_def)
qed

section \<open>KPIs of the filtered data\<close>

lemma calcularKPIs_totales:
  "totalPresupuestado (calcularKPIs rf pf) = sumaLista (map presupuestado rf)"
  "totalEjecutado (calcularKPIs rf pf) = sumaLista (map ejecutado rf)"
  by (simp_all add: calcularKPIs_def Let_def foldl_map sumaLista_def)

lemma calcularKPIs_pct:
  "pctEjecucion (calcularKPIs rf pf) =
     porcentaje (totalEjecutado (calcularKPIs rf pf)) (totalPresupuestado (calcularKPIs rf pf))"
  by (simp add: calcularKPIs_def Let_def)

lemma calcularKPIs_activos:
  "activos (calcularKPIs rf pf) = length (filter (\<lambda>p. estado p = Some EN_EJECUCION) pf)"
  by (simp add: calcularKPIs_def Let_def)

lemma actualizarDashboard_kpis_Some:
  "datos e = Some d \<Longrightarrow>
   actualizarDashboard_kpis e =
     Inr (calcularKPIs (registrosFilt (filtrar d (filtros e))) (proyectosFilt (filtrar d (filtros e))))"
  by (simp add: actualizarDashboard_kpis_def filtrarDatos_def)

text \<open>
  Claim C8, as stated, is false: the totals are sums in binary64, rounded after every
  addition, and not the sums of the amounts. Over the three records that spend
  \<open>2 ^ 53\<close>, 1 and 1 the dashboard reports \<open>2 ^ 53\<close>, which is 2 short of the sum.
\<close>

theorem kpis_consistentes_counterexample:
  "datos estadoGrandes = Some datosGrandes
   \<and> filtrarDatos estadoGrandes = Inr (filtrar datosGrandes (filtros estadoGrandes))
   \<and> registrosFilt (filtrar datosGrandes (filtros estadoGrandes)) = [RGrande, RUno, RUno]
   \<and> map ejecutado [RGrande, RUno, RUno] = [Num 9007199254740992, Num 1, Num 1]
   \<and> totalEjecutado (calcularKPIs (registrosFilt (filtrar datosGrandes (filtros estadoGrandes)))
                        (proyectosFilt (filtrar datosGrandes (filtros estadoGrandes))))
       = Num 9007199254740992
   \<and> Num 9007199254740992 \<noteq> Num (9007199254740992 + 1 + 1)"
proof -
  have h: "datos estadoGrandes = Some datosGrandes"
    by (simp add: estadoGrandes_def)
  have c: "filtrarDatos estadoGrandes = Inr (filtrar datosGrandes (filtros estadoGrandes))"
    by (simp add: filtrarDatos_def h)
  have r: "registrosFilt (filtrar datosGrandes (filtros estadoGrandes)) = [RGrande, RUno, RUno]"
    by code_simp
  have m: "map ejecutado [RGrande, RUno, RUno] = [Num 9007199254740992, Num 1, Num 1]"
    by (simp add: RGrande_def RUno_def)
  have t: "totalEjecutado (calcularKPIs (registrosFilt (filtrar datosGrandes (filtros estadoGrandes)))
                        (proyectosFilt (filtrar datosGrandes (filtros estadoGrandes))))
       = Num 9007199254740992"
    by code_simp
  have n: "Num 9007199254740992 \<noteq> Num (9007199254740992 + 1 + 1)"
    by simp
  from h c r m t n show ?thesis by (intro conjI)
qed

text \<open>
  Claim C8, amended. For a loaded dataset and any selection, the KPIs the dashboard shows
  are those of the filtered data: each total is the sum of \<^verbatim>\<open>presupuestado\<close>, or of
  \<^verbatim>\<open>ejecutado\<close>, over the filtered records as the language adds it, from the left and
  rounding to binary64 after every addition; it is the sum of the amounts whenever
  these are whole numbers whose magnitudes add up to \<open>2 ^ 53\<close> at most. \<^verbatim>\<open>activos\<close> is the
  number of filtered projects, counted by position, whose state is \<open>EN_EJECUCION\<close>.
\<close>

theorem kpis_consistentes:
  assumes "datos e = Some d"
  shows "let r = filtrar d (filtros e);
             k = calcularKPIs (registrosFilt r) (proyectosFilt r)
         in filtrarDatos e = Inr r
          \<and> actualizarDashboard_kpis e = Inr k
          \<and> totalEjecutado k = sumaLista (map ejecutado (registrosFilt r))
          \<and> totalPresupuestado k = sumaLista (map presupuestado (registrosFilt r))
          \<and> (\<forall>ns. map ejecutado (registrosFilt r) = map (\<lambda>n. Num (of_int n)) ns
                   \<and> (\<Sum>n\<leftarrow>ns. \<bar>n\<bar>) \<le> 2 ^ 53
                 \<longrightarrow> totalEjecutado k = Num (of_int (sum_list ns)))
          \<and> (\<forall>ns. map presupuestado (registrosFilt r) = map (\<lambda>n. Num (of_int n)) ns
                   \<and> (\<Sum>n\<leftarrow>ns. \<bar>n\<bar>) \<le> 2 ^ 53
                 \<longrightarrow> totalPresupuestado k = Num (of_int (sum_list ns)))
          \<and> activos k = card {i. i < length (proyectosFilt r)
                                \<and> estado (proyectosFilt r ! i) = Some EN_EJECUCION}"
  unfolding Let_def
proof (intro conjI allI impI)
  let ?r = "filtrar d (filtros e)"
  let ?k = "calcularKPIs (registrosFilt ?r) (proyectosFilt ?r)"
  show "filtrarDatos e = Inr ?r"
    using assms by (rule filtrarDatos_Some)
  show "actualizarDashboard_kpis e = Inr ?k"
    using assms by (rule actualizarDashboard_kpis_Some)
  show "totalEjecutado ?k = sumaLista (map ejecutado (registrosFilt ?r))"
    by (rule calcularKPIs_totales)
  show "totalPresupuestado ?k = sumaLista (map presupuestado (registrosFilt ?r))"
    by (rule calcularKPIs_totales)
  show "activos ?k = card {i. i < length (proyectosFilt ?r)
                                \<and> estado (proyectosFilt ?r ! i) = Some EN_EJECUCION}"
    by (simp add: calcularKPIs_activos length_filter_conv_card)
next
  fix ns :: "int list"
  let ?r = "filtrar d (filtros e)"
  let ?k = "calcularKPIs (registrosFilt ?r) (proyectosFilt ?r)"
  assume "map ejecutado (registrosFilt ?r) = map (\<lambda>n. Num (of_int n)) ns
          \<and> (\<Sum>n\<leftarrow>ns. \<bar>n\<bar>) \<le> 2 ^ 53"
  then show "totalEjecutado ?k = Num (of_int (sum_list ns))"
    by (simp add: calcularKPIs_totales sumaLista_enteros)
next
  fix ns :: "int list"
  let ?r = "filtrar d (filtros e)"
  let ?k = "calcularKPIs (registrosFilt ?r) (proyectosFilt ?r)"
  assume "map presupuestado (registrosFilt ?r) = map (\<lambda>n. Num (of_int n)) ns
          \<and> (\<Sum>n\<leftarrow>ns. \<bar>n\<bar>) \<le> 2 ^ 53"
  then show "totalPresupuestado ?k = Num (of_int (sum_list ns))"
    by (simp add: calcularKPIs_totales sumaLista_enteros)
qed

theorem kpis_consistentes_witness:
  "datos estadoEjemplo = Some datosEjemplo
   \<and> actualizarDashboard_kpis estadoEjemplo =
       Inr (calcularKPIs (registrosFilt (filtrar datosEjemplo (filtros estadoEjemplo)))
              (proyectosFilt (filtrar datosEjemplo (filtros estadoEjemplo))))
   \<and> map ejecutado (registrosFilt (filtrar datosEjemplo (filtros estadoEjemplo)))
       = [Num 900, Num 600]
   \<and> totalEjecutado (calcularKPIs (registrosFilt (filtrar datosEjemplo (filtros estadoEjemplo)))
              (proyectosFilt (filtrar datosEjemplo (filtros estadoEjemplo))))
       = Num (of_int (sum_list [900, 600]))
   \<and> calcularKPIs (registrosFilt (filtrar datosEjemplo (filtros estadoEjemplo)))
              (proyectosFilt (filtrar datosEjemplo (filtros estadoEjemplo)))
       = \<lparr>totalPresupuestado = Num 1500, totalEjecutado = Num 1500, pctEjecucion = Num 100,
          activos = 1\<rparr>"
proof -
  let ?r = "filtrar datosEjemplo (filtros estadoEjemplo)"
  have h: "datos estadoEjemplo = Some datosEjemplo"
    by (simp add: estadoEjemplo_def)
  have v: "calcularKPIs (registrosFilt ?r) (proyectosFilt ?r)
       = \<lparr>totalPresupuestado = Num 1500, totalEjecutado = Num 1500, pctEjecucion = Num 100,
          activos = 1\<rparr>"
    by code_simp
  have rf: "registrosFilt ?r = [R1, R2]"
    by code_simp
  have m: "map ejecutado (registrosFilt ?r) = map (\<lambda>n. Num (of_int n)) [900, 600]"
    by (simp add: rf R1_def R2_def)
  have s: "(\<Sum>n\<leftarrow>[900, 600]. \<bar>n\<bar>) \<le> (2 :: int) ^ 53"
    by simp
  note c = kpis_consistentes[OF h, unfolded Let_def]
  from c have 1: "actualizarDashboard_kpis estadoEjemplo =
       Inr (calcularKPIs (registrosFilt ?r) (proyectosFilt ?r))"
    by (elim conjE)
  from c have "\<forall>ns. map ejecutado (registrosFilt ?r) = map (\<lambda>n. Num (of_int n)) ns
                   \<and> (\<Sum>n\<leftarrow>ns. \<bar>n\<bar>) \<le> 2 ^ 53
                 \<longrightarrow> totalEjecutado (calcularKPIs (registrosFilt ?r) (proyectosFilt ?r))
                     = Num (of_int (sum_list ns))"
    by (elim conjE)
  with m s have 2: "totalEjecutado (calcularKPIs (registrosFilt ?r) (proyectosFilt ?r))
       = Num (of_int (sum_list [900, 600]))"
    by blast
  have m': "map ejecutado (registrosFilt ?r) = [Num 900, Num 600]"
    by (simp add: rf R1_def R2_def)
  from h 1 m' 2 v show ?thesis by (intro conjI)
qed

section \<open>Percentages without a budget\<close>

lemma ordenar_set: "ordenar xs = Some ys \<Longrightarrow> set ys = set xs"
  by (auto simp: ordenar_def split: if_splits)

lemma filasProyectos_pct:
  assumes "it \<in> set (filasProyectos rf pm)"
  shows "pct it = porcentaje (ejecutado it) (presupuestado it)"
  using assms unfolding filasProyectos_def by auto

lemma top10Proyectos_filas:
  assumes "top10Proyectos rf pm = Some its"
  shows "set its \<subseteq> set (filasProyectos rf pm)"
proof -
  from assms obtain ys where o: "ordenar (filasProyectos rf pm) = Some ys" and i: "its = take 10 ys"
    unfolding top10Proyectos_def by auto
  from i have "set its \<subseteq> set ys"
    by (simp add: set_take_subset)
  with ordenar_set[OF o] show ?thesis by simp
qed

lemma top10Proyectos_pct:
  assumes "top10Proyectos rf pm = Some its" "it \<in> set its"
  shows "pct it = porcentaje (ejecutado it) (presupuestado it)"
  using top10Proyectos_filas[OF assms(1)] assms(2) by (intro filasProyectos_pct) blast

lemma filtrar_vacio:
  "registrosFilt (filtrar d f) = [] \<Longrightarrow> proyectosFilt (filtrar d f) = []"
  by (simp add: filtrar_proyectosFilt)

lemma menor_numero_simps:
  "Num a < Num b \<longleftrightarrow> a < b"
  "\<not> x < NaN" "\<not> NaN < x" "\<not> Infinito < x" "\<not> x < MenosInfinito"
  "Num a < Infinito" "MenosInfinito < Num a" "MenosInfinito < Infinito"
  by (simp_all add: less_numero_def split: numero.splits)

lemma calcularKPIs_vacio:
  "calcularKPIs [] [] =
     \<lparr>totalPresupuestado = Num 0, totalEjecutado = Num 0, pctEjecucion = Num 0, activos = 0\<rparr>"
  by (simp add: calcularKPIs_def Let_def porcentaje_def menor_numero_simps)

text \<open>
  The test is what makes the percentage 0: the quotient itself, over a budget of 0, is
  \<^verbatim>\<open>NaN\<close> or an infinity, and so is its product with 100.
\<close>

lemma sin_la_prueba:
  "multiplicar (dividir e (Num 0)) (Num 100) \<in> {NaN, Infinito, MenosInfinito}"
  by (cases e) simp_all

text \<open>
  Claim C6. The execution percentage of the KPIs is the number 0 whenever the total budget
  is 0, the percentage of a row of the ranking, sorted or not yet, is 0 whenever the
  summed budget of its project is 0, and when no record passes the filter (in particular when the dataset has no
  records) the dashboard's KPIs are the zero result: both totals 0, percentage 0, no
  active project. These functions have no failing case.
\<close>

theorem division_por_cero:
  "(totalPresupuestado (calcularKPIs rf pf) = Num 0 \<longrightarrow> pctEjecucion (calcularKPIs rf pf) = Num 0)
   \<and> (\<forall>it \<in> set (filasProyectos rf pm). presupuestado it = Num 0 \<longrightarrow> pct it = Num 0)
   \<and> (\<forall>its. top10Proyectos rf pm = Some its \<longrightarrow>
         (\<forall>it \<in> set its. presupuestado it = Num 0 \<longrightarrow> pct it = Num 0))
   \<and> calcularKPIs [] [] =
       \<lparr>totalPresupuestado = Num 0, totalEjecutado = Num 0, pctEjecucion = Num 0, activos = 0\<rparr>
   \<and> top10Proyectos [] pm = Some []
   \<and> (datos e = Some d \<and> registrosFilt (filtrar d (filtros e)) = [] \<longrightarrow>
        actualizarDashboard_kpis e =
          Inr \<lparr>totalPresupuestado = Num 0, totalEjecutado = Num 0, pctEjecucion = Num 0,
               activos = 0\<rparr>)"
proof (intro conjI ballI impI allI)
  assume "totalPresupuestado (calcularKPIs rf pf) = Num 0"
  then show "pctEjecucion (calcularKPIs rf pf) = Num 0"
    by (simp add: calcularKPIs_pct porcentaje_def menor_numero_simps)
next
  fix it
  assume "it \<in> set (filasProyectos rf pm)" "presupuestado it = Num 0"
  then show "pct it = Num 0"
    by (simp add: filasProyectos_pct porcentaje_def menor_numero_simps)
next
  fix its it
  assume "top10Proyectos rf pm = Some its" "it \<in> set its" "presupuestado it = Num 0"
  then show "pct it = Num 0"
    by (simp add: top10Proyectos_pct porcentaje_def menor_numero_simps)
next
  show "calcularKPIs [] [] =
       \<lparr>totalPresupuestado = Num 0, totalEjecutado = Num 0, pctEjecucion = Num 0, activos = 0\<rparr>"
    by (rule calcularKPIs_vacio)
next
  show "top10Proyectos [] pm = Some []"
    by (simp add: top10Proyectos_def filasProyectos_def Object_entries_def ordenar_def)
next
  assume a: "datos e = Some d \<and> registrosFilt (filtrar d (filtros e)) = []"
  then have "proyectosFilt (filtrar d (filtros e)) = []"
    by (simp add: filtrar_vacio)
  with a show "actualizarDashboard_kpis e =
          Inr \<lparr>totalPresupuestado = Num 0, totalEjecutado = Num 0, pctEjecucion = Num 0,
               activos = 0\<rparr>"
    by (simp add: actualizarDashboard_kpis_Some calcularKPIs_vacio)
qed

theorem division_por_cero_witness:
  "datos estadoVacio = Some \<lparr>proyectos = [P1, P2], registros = []\<rparr>
   \<and> registrosFilt (filtrar \<lparr>proyectos = [P1, P2], registros = []\<rparr> (filtros estadoVacio)) = []
   \<and> actualizarDashboard_kpis estadoVacio =
       Inr \<lparr>totalPresupuestado = Num 0, totalEjecutado = Num 0, pctEjecucion = Num 0, activos = 0\<rparr>
   \<and> totalPresupuestado (calcularKPIs [RSinPresupuesto] [P1]) = Num 0
   \<and> totalEjecutado (calcularKPIs [RSinPresupuesto] [P1]) = Num 300
   \<and> pctEjecucion (calcularKPIs [RSinPresupuesto] [P1]) = Num 0
   \<and> top10Proyectos [RSinPresupuesto] Map.empty =
        Some [\<lparr>presupuestado = Num 0, ejecutado = Num 300, id_i = ''P1'', proy = Ausente,
               pct = Num 0\<rparr>]"
proof -
  let ?d = "\<lparr>proyectos = [P1, P2], registros = []\<rparr>"
  let ?fila = "\<lparr>presupuestado = Num 0, ejecutado = Num 300, id_i = ''P1'',
                 proy = (Ausente :: proyecto acceso), pct = Num 0\<rparr>"
  have h: "datos estadoVacio = Some ?d"
    by (simp add: estadoVacio_def)
  have v: "registrosFilt (filtrar ?d (filtros estadoVacio)) = []"
    by (simp add: filtrar_registrosFilt)
  have t: "totalPresupuestado (calcularKPIs [RSinPresupuesto] [P1]) = Num 0"
    "totalEjecutado (calcularKPIs [RSinPresupuesto] [P1]) = Num 300"
    by code_simp+
  obtain its where l: "top10Proyectos [RSinPresupuesto] Map.empty = Some its"
    and f: "map (\<lambda>it. (presupuestado it, ejecutado it, id_i it, proy it)) its
            = [(Num 0, Num 300, ''P1'', Ausente)]"
  proof -
    have "map_option (map (\<lambda>it. (presupuestado it, ejecutado it, id_i it, proy it)))
            (top10Proyectos [RSinPresupuesto] Map.empty)
          = Some [(Num 0, Num 300, ''P1'', Ausente)]"
      by code_simp
    then show ?thesis using that by auto
  qed
  note c = division_por_cero[of "[RSinPresupuesto]" "[P1]" Map.empty estadoVacio ?d]
  from c h v have 1: "actualizarDashboard_kpis estadoVacio =
       Inr \<lparr>totalPresupuestado = Num 0, totalEjecutado = Num 0, pctEjecucion = Num 0, activos = 0\<rparr>"
    by blast
  from c t(1) have 2: "pctEjecucion (calcularKPIs [RSinPresupuesto] [P1]) = Num 0"
    by blast
  from f obtain it where i: "its = [it]" "presupuestado it = Num 0" "ejecutado it = Num 300"
      "id_i it = ''P1''" "proy it = Ausente"
    by auto
  from c l i have "pct it = Num 0"
    by auto
  with i have "it = ?fila"
    by simp
  with l i have 3: "top10Proyectos [RSinPresupuesto] Map.empty = Some [?fila]"
    by simp
  from h v 1 t 2 3 show ?thesis by (intro conjI)
qed

section \<open>Status classification of a ranking row\<close>

lemma menor_50_no_90: "x < Num 50 \<Longrightarrow> \<not> Num 90 \<le> x"
  by (cases x) (simp_all add: less_numero_def less_eq_numero_def)

text \<open>
  Claim C5. With \<open>sobreEjec\<close> standing for \<open>presupuestado < ejecutado\<close>, the bar class
  and the colour of the percentage agree on three classes: green exactly when the
  percentage is at least 90 and there is no over-execution, red exactly when there is
  over-execution or the percentage is below 50, yellow exactly in the remaining case.
  The comparisons are those of the language, which are false on \<^verbatim>\<open>NaN\<close>.
\<close>

theorem clasificacion:
  "(progClass it = ''prog-green'' \<longleftrightarrow> Num 90 \<le> pct it \<and> \<not> presupuestado it < ejecutado it)
   \<and> (progClass it = ''prog-red'' \<longleftrightarrow> presupuestado it < ejecutado it \<or> pct it < Num 50)
   \<and> (progClass it = ''prog-yellow'' \<longleftrightarrow>
        \<not> (Num 90 \<le> pct it \<and> \<not> presupuestado it < ejecutado it)
        \<and> \<not> (presupuestado it < ejecutado it \<or> pct it < Num 50))
   \<and> (pctColor it = ''var(--teal)'' \<longleftrightarrow> Num 90 \<le> pct it \<and> \<not> presupuestado it < ejecutado it)
   \<and> (pctColor it = ''var(--red-alert)'' \<longleftrightarrow> presupuestado it < ejecutado it \<or> pct it < Num 50)
   \<and> (pctColor it = ''var(--gold)'' \<longleftrightarrow>
        \<not> (Num 90 \<le> pct it \<and> \<not> presupuestado it < ejecutado it)
        \<and> \<not> (presupuestado it < ejecutado it \<or> pct it < Num 50))"
  unfolding progClass_def pctColor_def Let_def
  using menor_50_no_90[of "pct it"] by auto

theorem clasificacion_witness:
  "top10Proyectos [RSobre] Map.empty = Some [itemSobre]
   \<and> presupuestado itemSobre < ejecutado itemSobre
   \<and> Num 90 \<le> pct itemSobre
   \<and> progClass itemSobre = ''prog-red''
   \<and> pctColor itemSobre = ''var(--red-alert)''"
proof -
  have t: "top10Proyectos [RSobre] Map.empty = Some [itemSobre]"
    by code_simp
  have s: "presupuestado itemSobre < ejecutado itemSobre" "Num 90 \<le> pct itemSobre"
    by (simp_all add: itemSobre_def less_numero_def less_eq_numero_def)
  from clasificacion[of itemSobre] s(1)
  have "progClass itemSobre = ''prog-red''" "pctColor itemSobre = ''var(--red-alert)''"
    by blast+
  with t s show ?thesis by (intro conjI)
qed

section \<open>Accumulating amounts by key\<close>

text \<open>
  The three groupings run the same loop over the records. An accumulator that starts
  empty never gets a property of its own under the name of an inherited member, so a
  record whose key is such a name changes nothing; for every other key the accumulator
  keeps one entry, whose amounts are the sums, in the order of the records, of the
  amounts of the records of that key.
\<close>

lemma acumular_casos:
  assumes "fst ` set acc \<inter> set heredadas = {}"
  shows "acumular k ini reg acc =
     (if k \<in> set heredadas then acc
      else let cur = (case map_of acc k of None \<Rightarrow> ini | Some m \<Rightarrow> m)
           in AList.update k
                (cur\<lparr>presupuestado := suma (presupuestado cur) (presupuestado reg),
                     ejecutado := suma (ejecutado cur) (ejecutado reg)\<rparr>) acc)"
proof (cases "k \<in> set heredadas")
  case True
  with assms have "k \<notin> fst ` set acc" by blast
  then have "map_of acc k = None" by (simp add: map_of_eq_None_iff)
  with True show ?thesis by (simp add: acumular_def leer_def)
next
  case False
  then show ?thesis by (simp add: acumular_def leer_def Let_def split: option.splits)
qed

lemma acumular_claves:
  assumes "fst ` set acc \<inter> set heredadas = {}"
  shows "fst ` set (acumular k ini reg acc)
       = (if k \<in> set heredadas then fst ` set acc else insert k (fst ` set acc))"
  unfolding acumular_casos[OF assms] by (simp add: Let_def dom_update)

lemma acumular_propias:
  assumes "fst ` set acc \<inter> set heredadas = {}"
  shows "fst ` set (acumular k ini reg acc) \<inter> set heredadas = {}"
  unfolding acumular_claves[OF assms] using assms by auto

lemma acumular_distinct: "distinct (map fst acc) \<Longrightarrow> distinct (map fst (acumular k ini reg acc))"
  by (simp add: acumular_def distinct_update split: acceso.splits)

lemma acumular_presupuestado:
  assumes "fst ` set acc \<inter> set heredadas = {}" "presupuestado ini = Num 0"
  shows "(case map_of (acumular k ini reg acc) k' of None \<Rightarrow> Num 0 | Some m \<Rightarrow> presupuestado m)
       = (if k = k' \<and> k \<notin> set heredadas
          then suma (case map_of acc k' of None \<Rightarrow> Num 0 | Some m \<Rightarrow> presupuestado m)
                 (presupuestado reg)
          else (case map_of acc k' of None \<Rightarrow> Num 0 | Some m \<Rightarrow> presupuestado m))"
  unfolding acumular_casos[OF assms(1)]
  using assms(2) by (simp add: Let_def update_conv' split: option.splits)

lemma acumular_ejecutado:
  assumes "fst ` set acc \<inter> set heredadas = {}" "ejecutado ini = Num 0"
  shows "(case map_of (acumular k ini reg acc) k' of None \<Rightarrow> Num 0 | Some m \<Rightarrow> ejecutado m)
       = (if k = k' \<and> k \<notin> set heredadas
          then suma (case map_of acc k' of None \<Rightarrow> Num 0 | Some m \<Rightarrow> ejecutado m)
                 (ejecutado reg)
          else (case map_of acc k' of None \<Rightarrow> Num 0 | Some m \<Rightarrow> ejecutado m))"
  unfolding acumular_casos[OF assms(1)]
  using assms(2) by (simp add: Let_def update_conv' split: option.splits)

lemma foldl_acumular_propias:
  "fst ` set acc0 \<inter> set heredadas = {} \<Longrightarrow>
   fst ` set (foldl (\<lambda>acc reg. acumular (kf reg) (ini reg) reg acc) acc0 rs) \<inter> set heredadas = {}"
  by (induction rs arbitrary: acc0) (simp_all add: acumular_propias)

lemma foldl_acumular_claves:
  "fst ` set acc0 \<inter> set heredadas = {} \<Longrightarrow>
   fst ` set (foldl (\<lambda>acc reg. acumular (kf reg) (ini reg) reg acc) acc0 rs)
   = fst ` set acc0 \<union> (kf ` set rs - set heredadas)"
proof (induction rs arbitrary: acc0)
  case Nil
  then show ?case by simp
next
  case (Cons r rs)
  from Cons.prems have p: "fst ` set (acumular (kf r) (ini r) r acc0) \<inter> set heredadas = {}"
    by (rule acumular_propias)
  show ?case
    by (simp add: Cons.IH[OF p] acumular_claves[OF Cons.prems]) auto
qed

lemma foldl_acumular_distinct:
  "distinct (map fst acc0) \<Longrightarrow>
   distinct (map fst (foldl (\<lambda>acc reg. acumular (kf reg) (ini reg) reg acc) acc0 rs))"
  by (induction rs arbitrary: acc0) (simp_all add: acumular_distinct)

lemma foldl_acumular_presupuestado:
  assumes "\<And>reg. presupuestado (ini reg) = Num 0" "k \<notin> set heredadas"
    and "fst ` set acc0 \<inter> set heredadas = {}"
  shows "(case map_of (foldl (\<lambda>acc reg. acumular (kf reg) (ini reg) reg acc) acc0 rs) k of
            None \<Rightarrow> Num 0 | Some m \<Rightarrow> presupuestado m)
       = foldl suma (case map_of acc0 k of None \<Rightarrow> Num 0 | Some m \<Rightarrow> presupuestado m)
           (map presupuestado (filter (\<lambda>reg. kf reg = k) rs))"
  using assms(3)
proof (induction rs arbitrary: acc0)
  case Nil
  show ?case by simp
next
  case (Cons r rs)
  from Cons.prems have p: "fst ` set (acumular (kf r) (ini r) r acc0) \<inter> set heredadas = {}"
    by (rule acumular_propias)
  show ?case
    using assms(2)
    by (simp add: Cons.IH[OF p] acumular_presupuestado[OF Cons.prems assms(1)])
qed

lemma foldl_acumular_ejecutado:
  assumes "\<And>reg. ejecutado (ini reg) = Num 0" "k \<notin> set heredadas"
    and "fst ` set acc0 \<inter> set heredadas = {}"
  shows "(case map_of (foldl (\<lambda>acc reg. acumular (kf reg) (ini reg) reg acc) acc0 rs) k of
            None \<Rightarrow> Num 0 | Some m \<Rightarrow> ejecutado m)
       = foldl suma (case map_of acc0 k of None \<Rightarrow> Num 0 | Some m \<Rightarrow> ejecutado m)
           (map ejecutado (filter (\<lambda>reg. kf reg = k) rs))"
  using assms(3)
proof (induction rs arbitrary: acc0)
  case Nil
  show ?case by simp
next
  case (Cons r rs)
  from Cons.prems have p: "fst ` set (acumular (kf r) (ini r) r acc0) \<inter> set heredadas = {}"
    by (rule acumular_propias)
  show ?case
    using assms(2)
    by (simp add: Cons.IH[OF p] acumular_ejecutado[OF Cons.prems assms(1)])
qed

text \<open>Read off an entry of the finished accumulator.\<close>

lemma grupo_montos:
  assumes ini: "\<And>reg. presupuestado (ini reg) = Num 0" "\<And>reg. ejecutado (ini reg) = Num 0"
    and km: "(k, m) \<in> set (foldl (\<lambda>acc reg. acumular (kf reg) (ini reg) reg acc) [] rs)"
  shows "presupuestado m = sumaLista (map presupuestado (filter (\<lambda>reg. kf reg = k) rs))
       \<and> ejecutado m = sumaLista (map ejecutado (filter (\<lambda>reg. kf reg = k) rs))
       \<and> k \<in> kf ` set rs \<and> k \<notin> set heredadas"
proof -
  let ?acc = "foldl (\<lambda>acc reg. acumular (kf reg) (ini reg) reg acc) [] rs"
  have "distinct (map fst ?acc)"
    by (rule foldl_acumular_distinct) simp
  with km have m: "map_of ?acc k = Some m"
    by simp
  have "k \<in> fst ` set ?acc"
    using km by force
  then have k: "k \<in> kf ` set rs" "k \<notin> set heredadas"
    by (simp_all add: foldl_acumular_claves)
  from foldl_acumular_presupuestado[of ini k "[]" kf rs, OF ini(1) k(2)]
       foldl_acumular_ejecutado[of ini k "[]" kf rs, OF ini(2) k(2)] m k
  show ?thesis by (simp add: sumaLista_def)
qed

text \<open>\<^verbatim>\<open>Object.entries\<close> lists every entry of the accumulator once.\<close>

lemma set_Object_entries: "set (Object_entries acc) = set acc"
  by (auto simp: Object_entries_def)

lemma length_Object_entries: "length (Object_entries acc) = length acc"
  by (simp add: Object_entries_def sum_length_filter_compl)

lemma distinct_Object_entries:
  "distinct (map fst acc) \<Longrightarrow> distinct (map fst (Object_entries acc))"
  by (auto simp: Object_entries_def distinct_map distinct_map_filter inj_on_def)

section \<open>Grouping by an attribute of the project\<close>

text \<open>
  Claim C7, as stated, is false: the record of a project that has no \<^verbatim>\<open>area\<close> passes the
  filter and is grouped under the key \<^verbatim>\<open>undefined\<close>; no group \<^verbatim>\<open>N/A\<close> appears.
\<close>

theorem agruparPorCampoProy_counterexample:
  "registrosFilt (filtrar datosSinArea sinFiltros) = [R1, RSinArea, R2]
   \<and> proyMap (filtrar datosSinArea sinFiltros) (id_proyecto RSinArea) = Some PSinArea
   \<and> leerCampo PSinArea Area = None
   \<and> agruparPorCampoProy (registrosFilt (filtrar datosSinArea sinFiltros))
        (proyMap (filtrar datosSinArea sinFiltros)) Area
      = [(''Mina A'', \<lparr>presupuestado = Num 1500, ejecutado = Num 1500\<rparr>),
         (''undefined'', \<lparr>presupuestado = Num 400, ejecutado = Num 250\<rparr>)]"
proof -
  have 1: "registrosFilt (filtrar datosSinArea sinFiltros) = [R1, RSinArea, R2]"
    by code_simp
  have 2: "proyMap (filtrar datosSinArea sinFiltros) (id_proyecto RSinArea) = Some PSinArea"
    by code_simp
  have 3: "leerCampo PSinArea Area = None"
    by (simp add: PSinArea_def)
  have 4: "agruparPorCampoProy (registrosFilt (filtrar datosSinArea sinFiltros))
        (proyMap (filtrar datosSinArea sinFiltros)) Area
      = [(''Mina A'', \<lparr>presupuestado = Num 1500, ejecutado = Num 1500\<rparr>),
         (''undefined'', \<lparr>presupuestado = Num 400, ejecutado = Num 250\<rparr>)]"
    by code_simp
  from 1 2 3 4 show ?thesis by (intro conjI)
qed

lemma clave_casos:
  "clave pm c reg =
     (case pm (id_proyecto reg) of
        None \<Rightarrow> if id_proyecto reg \<in> set heredadas then ''undefined'' else ''N/A''
      | Some p \<Rightarrow> (case leerCampo p c of None \<Rightarrow> ''undefined'' | Some s \<Rightarrow> s))"
  by (simp add: clave_def claveProp_def leer_def split: option.splits)

text \<open>
  Claim C7, amended. \<^verbatim>\<open>agruparPorCampoProy\<close> has at most one group per key; a record's key
  is the value its project has for the attribute, \<^verbatim>\<open>undefined\<close> when the project has no
  value for the attribute, and \<^verbatim>\<open>N/A\<close> when its \<^verbatim>\<open>id_proyecto\<close> has no project in the
  lookup. Each group is the group of the key of some record and holds the sums of
  \<^verbatim>\<open>presupuestado\<close> and of \<^verbatim>\<open>ejecutado\<close> over the records of its key, as the language adds
  them in the order of the records, and every record has exactly one group. All this
  is said of the keys and of the values of \<^verbatim>\<open>id_proyecto\<close> that do not name a member
  every object inherits; of those nothing is said.
\<close>

theorem agruparPorCampoProy_grupos:
  "distinct (map fst (agruparPorCampoProy rf pm c))
   \<and> (\<forall>km \<in> set (agruparPorCampoProy rf pm c).
         fst km \<in> clave pm c ` set rf
         \<and> presupuestado (snd km)
             = sumaLista (map presupuestado (filter (\<lambda>reg. clave pm c reg = fst km) rf))
         \<and> ejecutado (snd km)
             = sumaLista (map ejecutado (filter (\<lambda>reg. clave pm c reg = fst km) rf)))
   \<and> (\<forall>reg \<in> set rf. clave pm c reg \<notin> set heredadas \<longrightarrow>
         (\<exists>!km. km \<in> set (agruparPorCampoProy rf pm c) \<and> fst km = clave pm c reg))
   \<and> (\<forall>reg. pm (id_proyecto reg) = None \<and> id_proyecto reg \<notin> set heredadas
         \<longrightarrow> clave pm c reg = ''N/A'')
   \<and> (\<forall>reg p. pm (id_proyecto reg) = Some p \<and> leerCampo p c = None
         \<longrightarrow> clave pm c reg = ''undefined'')
   \<and> (\<forall>reg p s. pm (id_proyecto reg) = Some p \<and> leerCampo p c = Some s
         \<longrightarrow> clave pm c reg = s)"
proof -
  let ?g = "agruparPorCampoProy rf pm c"
  have d: "distinct (map fst ?g)"
    unfolding agruparPorCampoProy_def by (rule foldl_acumular_distinct) simp
  have k: "fst ` set ?g = clave pm c ` set rf - set heredadas"
    unfolding agruparPorCampoProy_def by (simp add: foldl_acumular_claves)
  have s: "presupuestado (snd km)
             = sumaLista (map presupuestado (filter (\<lambda>reg. clave pm c reg = fst km) rf))
         \<and> ejecutado (snd km)
             = sumaLista (map ejecutado (filter (\<lambda>reg. clave pm c reg = fst km) rf))
         \<and> fst km \<in> clave pm c ` set rf"
    if "km \<in> set ?g" for km
  proof -
    from that have "(fst km, snd km) \<in> set (foldl (\<lambda>acc reg. acumular (clave pm c reg)
        \<lparr>presupuestado = Num 0, ejecutado = Num 0\<rparr> reg acc) [] rf)"
      unfolding agruparPorCampoProy_def by simp
    from grupo_montos[OF _ _ this] show ?thesis by simp
  qed
  have u: "\<exists>!km. km \<in> set ?g \<and> fst km = clave pm c reg"
    if "reg \<in> set rf" "clave pm c reg \<notin> set heredadas" for reg
  proof -
    from that k have "clave pm c reg \<in> fst ` set ?g" by blast
    then obtain km where km: "km \<in> set ?g" "fst km = clave pm c reg" by auto
    show ?thesis
    proof (rule ex1I[of _ km])
      show "km \<in> set ?g \<and> fst km = clave pm c reg" using km by simp
    next
      fix km' assume "km' \<in> set ?g \<and> fst km' = clave pm c reg"
      with km d show "km' = km"
        by (metis eq_key_imp_eq_value prod.collapse)
    qed
  qed
  show ?thesis
  proof (intro conjI ballI allI impI)
    show "distinct (map fst ?g)" by (rule d)
  next
    fix km assume "km \<in> set ?g"
    from s[OF this]
    show "fst km \<in> clave pm c ` set rf"
      and "presupuestado (snd km)
             = sumaLista (map presupuestado (filter (\<lambda>reg. clave pm c reg = fst km) rf))"
      and "ejecutado (snd km)
             = sumaLista (map ejecutado (filter (\<lambda>reg. clave pm c reg = fst km) rf))"
      by simp_all
  next
    fix reg assume "reg \<in> set rf" "clave pm c reg \<notin> set heredadas"
    then show "\<exists>!km. km \<in> set ?g \<and> fst km = clave pm c reg" by (rule u)
  next
    fix reg :: registro
    assume "pm (id_proyecto reg) = None \<and> id_proyecto reg \<notin> set heredadas"
    then show "clave pm c reg = ''N/A''" by (simp add: clave_casos)
  next
    fix reg :: registro and p assume "pm (id_proyecto reg) = Some p \<and> leerCampo p c = None"
    then show "clave pm c reg = ''undefined''" by (simp add: clave_casos)
  next
    fix reg :: registro and p s assume "pm (id_proyecto reg) = Some p \<and> leerCampo p c = Some s"
    then show "clave pm c reg = s" by (simp add: clave_casos)
  qed
qed

theorem agruparPorCampoProy_grupos_witness:
  "agruparPorCampoProy [R1, R9, RSinArea, R2] (proyMap (filtrar datosSinArea sinFiltros)) Area
     = [(''Mina A'', \<lparr>presupuestado = Num 1500, ejecutado = Num 1500\<rparr>),
        (''N/A'', \<lparr>presupuestado = Num 700, ejecutado = Num 100\<rparr>),
        (''undefined'', \<lparr>presupuestado = Num 400, ejecutado = Num 250\<rparr>)]
   \<and> proyMap (filtrar datosSinArea sinFiltros) (id_proyecto R9) = None
   \<and> id_proyecto R9 \<notin> set heredadas
   \<and> clave (proyMap (filtrar datosSinArea sinFiltros)) Area R9 = ''N/A''
   \<and> sumaLista (map presupuestado
        (filter (\<lambda>reg. clave (proyMap (filtrar datosSinArea sinFiltros)) Area reg = ''Mina A'')
           [R1, R9, RSinArea, R2])) = Num 1500"
proof -
  let ?pm = "proyMap (filtrar datosSinArea sinFiltros)"
  let ?rf = "[R1, R9, RSinArea, R2]"
  have v: "agruparPorCampoProy ?rf ?pm Area
     = [(''Mina A'', \<lparr>presupuestado = Num 1500, ejecutado = Num 1500\<rparr>),
        (''N/A'', \<lparr>presupuestado = Num 700, ejecutado = Num 100\<rparr>),
        (''undefined'', \<lparr>presupuestado = Num 400, ejecutado = Num 250\<rparr>)]"
    by code_simp
  have n: "?pm (id_proyecto R9) = None"
    by code_simp
  have h: "id_proyecto R9 \<notin> set heredadas"
    by (simp add: R9_def heredadas_def)
  note t = agruparPorCampoProy_grupos[of ?rf ?pm Area]
  from t n h have c: "clave ?pm Area R9 = ''N/A''"
    by blast
  have "(''Mina A'', \<lparr>presupuestado = Num 1500, ejecutado = Num 1500\<rparr>)
          \<in> set (agruparPorCampoProy ?rf ?pm Area)"
    by (simp only: v) simp
  with t have "presupuestado (snd (''Mina A'', \<lparr>presupuestado = Num 1500, ejecutado = Num 1500\<rparr>))
      = sumaLista (map presupuestado
          (filter (\<lambda>reg. clave ?pm Area reg
              = fst (''Mina A'', \<lparr>presupuestado = Num 1500, ejecutado = Num 1500\<rparr>)) ?rf))"
    by blast
  then have s: "sumaLista (map presupuestado
        (filter (\<lambda>reg. clave ?pm Area reg = ''Mina A'') ?rf)) = Num 1500"
    by simp
  from v n h c s show ?thesis by (intro conjI)
qed

section \<open>The monthly series\<close>

text \<open>The keys of the months, for years and months below \<open>2 ^ 53\<close> in magnitude.\<close>

lemma numeroDe_entero: "\<bar>i\<bar> \<le> 2 ^ 53 \<Longrightarrow> numeroDe i = Num (of_int i)"
  unfolding numeroDe_def by (rule redondear_entero)

lemma cadena_corta:
  assumes "\<bar>i\<bar> < 2 ^ 53"
  shows "cadena i = cadenaCorta i"
proof -
  from assms have "numeroDe i = Num (of_int i)"
    by (intro numeroDe_entero) simp
  moreover from assms have "\<bar>rat_of_int i\<bar> < 2 ^ 53"
    by (metis of_int_abs of_int_less_numeral_power_cancel_iff)
  ultimately show ?thesis
    by (simp add: cadena_def)
qed

lemma claveMes_corta:
  assumes "\<bar>anio reg\<bar> < 2 ^ 53" "\<bar>mes reg\<bar> < 2 ^ 53"
  shows "claveMes reg =
           cadenaCorta (anio reg) @ ''-'' @ padStart 2 (CHR ''0'') (cadenaCorta (mes reg))"
  using assms by (simp add: claveMes_def cadena_corta)

lemma claveMes_inj:
  assumes "\<bar>anio reg\<bar> < 2 ^ 53" "\<bar>mes reg\<bar> < 2 ^ 53"
    and "\<bar>anio reg'\<bar> < 2 ^ 53" "\<bar>mes reg'\<bar> < 2 ^ 53"
  shows "claveMes reg = claveMes reg' \<longleftrightarrow> anio reg = anio reg' \<and> mes reg = mes reg'"
proof
  assume e: "claveMes reg = claveMes reg'"
  let ?b = "padStart 2 (CHR ''0'') (cadenaCorta (mes reg))"
  let ?b' = "padStart 2 (CHR ''0'') (cadenaCorta (mes reg'))"
  from e have k: "cadenaCorta (anio reg) @ ''-'' @ ?b = cadenaCorta (anio reg') @ ''-'' @ ?b'"
    by (simp only: claveMes_corta[OF assms(1,2)] claveMes_corta[OF assms(3,4)])
  have "cadenaCorta (anio reg) = cadenaCorta (anio reg')"
    using anio_de_clave[of "anio reg" ?b] anio_de_clave[of "anio reg'" ?b'] k by metis
  with k have "anio reg = anio reg'" "?b = ?b'"
    by (simp_all add: cadenaCorta_inj)
  then show "anio reg = anio reg' \<and> mes reg = mes reg'"
    by (simp add: padStart_inj)
next
  assume "anio reg = anio reg' \<and> mes reg = mes reg'"
  then show "claveMes reg = claveMes reg'"
    by (simp add: claveMes_def)
qed

text \<open>No key of a month names an inherited member: it has a hyphen and none of them has.\<close>

lemma claveMes_propia: "claveMes reg \<notin> set heredadas"
proof -
  have "CHR ''-'' \<in> set (claveMes reg)"
    by (simp add: claveMes_def)
  moreover have "\<forall>k \<in> set heredadas. CHR ''-'' \<notin> set k"
    by (simp add: heredadas_def)
  ultimately show ?thesis by blast
qed

lemma claveMes_orden:
  assumes "0 \<le> anio reg" "0 \<le> anio reg'" "length (dec (anio reg)) = length (dec (anio reg'))"
    and "0 \<le> mes reg" "mes reg \<le> 99" "0 \<le> mes reg'" "mes reg' \<le> 99"
    and "anio reg < 2 ^ 53" "anio reg' < 2 ^ 53"
  shows "claveMes reg < claveMes reg' \<longleftrightarrow>
           anio reg < anio reg' \<or> (anio reg = anio reg' \<and> mes reg < mes reg')"
proof -
  have c: "claveMes reg =
      cadenaCorta (anio reg) @ ''-'' @ padStart 2 (CHR ''0'') (cadenaCorta (mes reg))"
    "claveMes reg' =
      cadenaCorta (anio reg') @ ''-'' @ padStart 2 (CHR ''0'') (cadenaCorta (mes reg'))"
    using assms by (simp_all add: claveMes_corta)
  have "claveMes reg < claveMes reg' \<longleftrightarrow>
      dec (anio reg) < dec (anio reg')
      \<or> (dec (anio reg) = dec (anio reg')
          \<and> padStart 2 (CHR ''0'') (cadenaCorta (mes reg)) < padStart 2 (CHR ''0'') (cadenaCorta (mes reg')))"
    using assms(1,2) unfolding c by (simp add: cadenaCorta_def lex_append_igual[OF assms(3)])
  also have "\<dots> \<longleftrightarrow> anio reg < anio reg' \<or> (anio reg = anio reg' \<and> mes reg < mes reg')"
    using assms(1,2) dec_inj[OF assms(1,2)]
    by (auto simp: dec_orden[OF assms(1,2,3)] pad2_orden[OF assms(4,5,6,7)])
  finally show ?thesis .
qed


lemma set_update_sub: "set (AList.update k v al) \<subseteq> insert (k, v) (set al)"
  by (induction al) auto

lemma foldl_acumular_origen:
  assumes h: "\<And>m x y. h (m\<lparr>presupuestado := x, ejecutado := y\<rparr>) = h m"
    and inv: "\<forall>km \<in> set acc0. \<exists>reg \<in> S. kf reg = fst km \<and> h (snd km) = h (ini reg)"
    and sub: "set rs \<subseteq> S"
  shows "\<forall>km \<in> set (foldl (\<lambda>acc reg. acumular (kf reg) (ini reg) reg acc) acc0 rs).
           \<exists>reg \<in> S. kf reg = fst km \<and> h (snd km) = h (ini reg)"
  using inv sub
proof (induction rs arbitrary: acc0)
  case Nil
  then show ?case by simp
next
  case (Cons r rs)
  have "\<forall>km \<in> set (acumular (kf r) (ini r) r acc0).
          \<exists>reg \<in> S. kf reg = fst km \<and> h (snd km) = h (ini reg)"
  proof
    fix km assume km: "km \<in> set (acumular (kf r) (ini r) r acc0)"
    show "\<exists>reg \<in> S. kf reg = fst km \<and> h (snd km) = h (ini reg)"
    proof (cases "leer (map_of acc0) (kf r)")
      case Heredado
      with km have "km \<in> set acc0" by (simp add: acumular_def)
      with Cons.prems(1) show ?thesis by blast
    next
      case Ausente
      with km have "km \<in> set acc0
          \<or> km = (kf r, (ini r)\<lparr>presupuestado := suma (presupuestado (ini r)) (presupuestado r),
                                ejecutado := suma (ejecutado (ini r)) (ejecutado r)\<rparr>)"
        using set_update_sub unfolding acumular_def by fastforce
      then show ?thesis
      proof
        assume "km \<in> set acc0"
        with Cons.prems(1) show ?thesis by blast
      next
        assume "km = (kf r, (ini r)\<lparr>presupuestado := suma (presupuestado (ini r)) (presupuestado r),
                                ejecutado := suma (ejecutado (ini r)) (ejecutado r)\<rparr>)"
        with Cons.prems(2) show ?thesis
          by (auto simp: h intro!: bexI[of _ r])
      qed
    next
      case (Propio m)
      then have "map_of acc0 (kf r) = Some m" by (simp add: leer_def split: option.splits if_splits)
      then have "(kf r, m) \<in> set acc0" by (rule map_of_SomeD)
      with Cons.prems(1) obtain reg where reg: "reg \<in> S" "kf reg = kf r" "h m = h (ini reg)"
        by fastforce
      from km Propio have "km \<in> set acc0
          \<or> km = (kf r, m\<lparr>presupuestado := suma (presupuestado m) (presupuestado r),
                           ejecutado := suma (ejecutado m) (ejecutado r)\<rparr>)"
        using set_update_sub unfolding acumular_def by fastforce
      then show ?thesis
      proof
        assume "km \<in> set acc0"
        with Cons.prems(1) show ?thesis by blast
      next
        assume "km = (kf r, m\<lparr>presupuestado := suma (presupuestado m) (presupuestado r),
                           ejecutado := suma (ejecutado m) (ejecutado r)\<rparr>)"
        with reg show ?thesis
          by (auto simp: h intro!: bexI[of _ reg])
      qed
    qed
  qed
  moreover from Cons.prems(2) have "set rs \<subseteq> S" by simp
  ultimately show ?case
    using Cons.IH by simp
qed

lemma agruparPorMes_sort:
  "agruparPorMes rf =
     sort_key fst (Object_entries (foldl (\<lambda>acc reg. acumular (claveMes reg)
        \<lparr>presupuestado = Num 0, ejecutado = Num 0,
         label = etiquetaMes (mes reg) @ '' '' @ cadena (anio reg)\<rparr> reg acc) [] rf))"
  by (simp add: agruparPorMes_def)

lemma agruparPorMes_claves:
  "sorted_wrt (<) (map fst (agruparPorMes rf))"
  "fst ` set (agruparPorMes rf) = claveMes ` set rf"
proof -
  let ?acc = "foldl (\<lambda>acc reg. acumular (claveMes reg)
        \<lparr>presupuestado = Num 0, ejecutado = Num 0,
         label = etiquetaMes (mes reg) @ '' '' @ cadena (anio reg)\<rparr> reg acc) [] rf"
  have "distinct (map fst ?acc)"
    by (rule foldl_acumular_distinct) simp
  then have "distinct (map fst (Object_entries ?acc))"
    by (rule distinct_Object_entries)
  then have "distinct (Object_entries ?acc)" "inj_on fst (set (Object_entries ?acc))"
    by (simp_all only: distinct_map)
  then have "distinct (map fst (agruparPorMes rf))"
    unfolding agruparPorMes_sort by (simp add: distinct_map)
  moreover have "sorted (map fst (agruparPorMes rf))"
    unfolding agruparPorMes_sort by (rule sorted_sort_key)
  ultimately show "sorted_wrt (<) (map fst (agruparPorMes rf))"
    by (simp add: strict_sorted_iff)
  have "claveMes ` set rf - set heredadas = claveMes ` set rf"
    using claveMes_propia by auto
  then show "fst ` set (agruparPorMes rf) = claveMes ` set rf"
    unfolding agruparPorMes_sort
    by (simp add: set_Object_entries foldl_acumular_claves)
qed

lemma agruparPorMes_sumas:
  assumes "kb \<in> set (agruparPorMes rf)"
  shows "ejecutado (snd kb) = sumaLista (map ejecutado (filter (\<lambda>x. claveMes x = fst kb) rf))"
    and "presupuestado (snd kb) = sumaLista (map presupuestado (filter (\<lambda>x. claveMes x = fst kb) rf))"
proof -
  let ?ini = "\<lambda>reg :: registro. \<lparr>presupuestado = Num 0, ejecutado = Num 0,
         label = etiquetaMes (mes reg) @ '' '' @ cadena (anio reg)\<rparr>"
  let ?acc = "foldl (\<lambda>acc reg. acumular (claveMes reg) (?ini reg) reg acc) [] rf"
  from assms have m: "(fst kb, snd kb) \<in> set ?acc"
    unfolding agruparPorMes_sort by (simp add: set_Object_entries)
  from grupo_montos[where ini = ?ini and kf = claveMes and k = "fst kb" and m = "snd kb" and rs = rf,
      OF _ _ m]
  show "ejecutado (snd kb) = sumaLista (map ejecutado (filter (\<lambda>x. claveMes x = fst kb) rf))"
    and "presupuestado (snd kb) = sumaLista (map presupuestado (filter (\<lambda>x. claveMes x = fst kb) rf))"
    by simp_all
qed

lemma agruparPorMes_bucket:
  assumes "kb \<in> set (agruparPorMes rf)" "reg \<in> set rf" "claveMes reg = fst kb"
    and r: "\<forall>x \<in> set rf. \<bar>anio x\<bar> < 2 ^ 53 \<and> \<bar>mes x\<bar> < 2 ^ 53"
  shows "ejecutado (snd kb)
      = sumaLista (map ejecutado (filter (\<lambda>x. anio x = anio reg \<and> mes x = mes reg) rf))"
    and "presupuestado (snd kb)
      = sumaLista (map presupuestado (filter (\<lambda>x. anio x = anio reg \<and> mes x = mes reg) rf))"
    and "label (snd kb) = etiquetaMes (mes reg) @ '' '' @ cadena (anio reg)"
proof -
  let ?ini = "\<lambda>reg :: registro. \<lparr>presupuestado = Num 0, ejecutado = Num 0,
         label = etiquetaMes (mes reg) @ '' '' @ cadena (anio reg)\<rparr>"
  let ?acc = "foldl (\<lambda>acc reg. acumular (claveMes reg) (?ini reg) reg acc) [] rf"
  from assms(1) have m: "(fst kb, snd kb) \<in> set ?acc"
    unfolding agruparPorMes_sort by (simp add: set_Object_entries)
  have i: "claveMes x = claveMes reg \<longleftrightarrow> anio x = anio reg \<and> mes x = mes reg"
    if "x \<in> set rf" for x
    using r that assms(2) by (intro claveMes_inj) blast+
  have f: "filter (\<lambda>x. claveMes x = fst kb) rf
         = filter (\<lambda>x. anio x = anio reg \<and> mes x = mes reg) rf"
    unfolding assms(3)[symmetric] by (rule filter_cong) (simp_all add: i)
  from agruparPorMes_sumas[OF assms(1)]
  show "ejecutado (snd kb)
      = sumaLista (map ejecutado (filter (\<lambda>x. anio x = anio reg \<and> mes x = mes reg) rf))"
    and "presupuestado (snd kb)
      = sumaLista (map presupuestado (filter (\<lambda>x. anio x = anio reg \<and> mes x = mes reg) rf))"
    unfolding f by simp_all
  have "\<forall>km \<in> set ?acc. \<exists>x \<in> set rf. claveMes x = fst km \<and> label (snd km) = label (?ini x)"
    by (rule foldl_acumular_origen) simp_all
  with m obtain x where x: "x \<in> set rf" "claveMes x = fst kb" "label (snd kb) = label (?ini x)"
    by fastforce
  from x(2) assms(3) have "claveMes x = claveMes reg"
    by simp
  then have "anio x = anio reg \<and> mes x = mes reg"
    by (simp only: i[OF x(1)])
  with x(3) show "label (snd kb) = etiquetaMes (mes reg) @ '' '' @ cadena (anio reg)"
    by simp
qed

lemma estricto_nth:
  fixes xs :: "string list"
  assumes "sorted_wrt (<) xs" "i < length xs" "j < length xs"
  shows "i < j \<longleftrightarrow> xs ! i < xs ! j"
proof
  assume "i < j"
  with assms show "xs ! i < xs ! j"
    by (simp add: sorted_wrt_iff_nth_less)
next
  assume l: "xs ! i < xs ! j"
  show "i < j"
  proof (rule ccontr)
    assume "\<not> i < j"
    then consider "j < i" | "j = i" by linarith
    then show False
    proof cases
      case 1
      with assms have "xs ! j < xs ! i"
        by (simp add: sorted_wrt_iff_nth_less)
      with l show False by simp
    next
      case 2
      with l show False by simp
    qed
  qed
qed

text \<open>
  Claim C3, as stated, is false. The buckets are in the order of their text keys, and
  the key of January 1000 comes before the key of December 999. And the amounts of a
  bucket are sums in binary64, rounded after every addition: the bucket of the three
  records that spend \<open>2 ^ 53\<close>, 1 and 1 in one month holds \<open>2 ^ 53\<close>, 2 short of the sum.
\<close>

theorem agruparPorMes_counterexample:
  "map fst (agruparPorMes [RDic999, REne1000]) = [''1000-01'', ''999-12'']
   \<and> map (label \<circ> snd) (agruparPorMes [RDic999, REne1000]) = [''Ene 1000'', ''Dic 999'']
   \<and> claveMes REne1000 = ''1000-01'' \<and> claveMes RDic999 = ''999-12''
   \<and> anio RDic999 < anio REne1000
   \<and> map ejecutado [RGrande, RUno, RUno] = [Num 9007199254740992, Num 1, Num 1]
   \<and> map fst (agruparPorMes [RGrande, RUno, RUno]) = [''2024-01'']
   \<and> map (ejecutado \<circ> snd) (agruparPorMes [RGrande, RUno, RUno]) = [Num 9007199254740992]
   \<and> Num 9007199254740992 \<noteq> Num (9007199254740992 + 1 + 1)"
proof -
  have 1: "map fst (agruparPorMes [RDic999, REne1000]) = [''1000-01'', ''999-12'']"
    by code_simp
  have 2: "map (label \<circ> snd) (agruparPorMes [RDic999, REne1000]) = [''Ene 1000'', ''Dic 999'']"
    by code_simp
  have 3: "claveMes REne1000 = ''1000-01''" "claveMes RDic999 = ''999-12''"
    by code_simp+
  have 4: "anio RDic999 < anio REne1000"
    by (simp add: RDic999_def REne1000_def)
  have 5: "map ejecutado [RGrande, RUno, RUno] = [Num 9007199254740992, Num 1, Num 1]"
    by (simp add: RGrande_def RUno_def)
  have 6: "map fst (agruparPorMes [RGrande, RUno, RUno]) = [''2024-01'']"
    "map (ejecutado \<circ> snd) (agruparPorMes [RGrande, RUno, RUno]) = [Num 9007199254740992]"
    by code_simp+
  have 7: "Num 9007199254740992 \<noteq> Num (9007199254740992 + 1 + 1)"
    by simp
  from 1 2 3 4 5 6 7 show ?thesis by (intro conjI)
qed

text \<open>
  Claim C3, amended. Whatever the order of the records, \<^verbatim>\<open>agruparPorMes\<close> returns one
  bucket per key \<^verbatim>\<open>anio-zeroPaddedMes\<close> met, strictly ascending by that text key, and a
  bucket holds the sums of \<^verbatim>\<open>ejecutado\<close> and of \<^verbatim>\<open>presupuestado\<close> over the records of its
  key, as the language adds them in the order of the records. When the years and the
  months are below \<open>2 ^ 53\<close> in magnitude, two records have the same key exactly when
  they have the same year and month, so that a bucket holds the sums over the records
  of its year-month pair, with the label of that month and year. When moreover no year
  is negative, all years have the same number of digits and every month is between 0
  and 99, the order of the buckets is the order of the pairs (year first, then month).
\<close>

theorem agruparPorMes_orden:
  "sorted_wrt (<) (map fst (agruparPorMes rf))
   \<and> fst ` set (agruparPorMes rf) = claveMes ` set rf
   \<and> (\<forall>kb \<in> set (agruparPorMes rf).
         ejecutado (snd kb) = sumaLista (map ejecutado (filter (\<lambda>x. claveMes x = fst kb) rf))
         \<and> presupuestado (snd kb)
             = sumaLista (map presupuestado (filter (\<lambda>x. claveMes x = fst kb) rf)))
   \<and> ((\<forall>reg \<in> set rf. \<bar>anio reg\<bar> < 2 ^ 53 \<and> \<bar>mes reg\<bar> < 2 ^ 53) \<longrightarrow>
        (\<forall>reg \<in> set rf. \<forall>reg' \<in> set rf.
           claveMes reg = claveMes reg' \<longleftrightarrow> anio reg = anio reg' \<and> mes reg = mes reg')
        \<and> (\<forall>kb \<in> set (agruparPorMes rf). \<forall>reg \<in> set rf. claveMes reg = fst kb \<longrightarrow>
             ejecutado (snd kb)
               = sumaLista (map ejecutado
                   (filter (\<lambda>x. anio x = anio reg \<and> mes x = mes reg) rf))
             \<and> presupuestado (snd kb)
               = sumaLista (map presupuestado
                   (filter (\<lambda>x. anio x = anio reg \<and> mes x = mes reg) rf))
             \<and> label (snd kb) = etiquetaMes (mes reg) @ '' '' @ cadena (anio reg)))
   \<and> ((\<forall>reg \<in> set rf. \<forall>reg' \<in> set rf.
          0 \<le> anio reg \<and> anio reg < 2 ^ 53
          \<and> length (dec (anio reg)) = length (dec (anio reg'))
          \<and> 0 \<le> mes reg \<and> mes reg \<le> 99)
        \<longrightarrow> (\<forall>i < length (agruparPorMes rf). \<forall>j < length (agruparPorMes rf).
               \<forall>reg \<in> set rf. \<forall>reg' \<in> set rf.
                 fst (agruparPorMes rf ! i) = claveMes reg
                 \<and> fst (agruparPorMes rf ! j) = claveMes reg'
                 \<longrightarrow> (i < j \<longleftrightarrow>
                        anio reg < anio reg' \<or> (anio reg = anio reg' \<and> mes reg < mes reg'))))"
proof (intro conjI allI ballI impI)
  show "sorted_wrt (<) (map fst (agruparPorMes rf))"
    by (rule agruparPorMes_claves)
  show "fst ` set (agruparPorMes rf) = claveMes ` set rf"
    by (rule agruparPorMes_claves)
next
  fix kb assume "kb \<in> set (agruparPorMes rf)"
  then show "ejecutado (snd kb) = sumaLista (map ejecutado (filter (\<lambda>x. claveMes x = fst kb) rf))"
    and "presupuestado (snd kb)
             = sumaLista (map presupuestado (filter (\<lambda>x. claveMes x = fst kb) rf))"
    by (rule agruparPorMes_sumas)+
next
  fix reg reg' :: registro
  assume "\<forall>reg \<in> set rf. \<bar>anio reg\<bar> < 2 ^ 53 \<and> \<bar>mes reg\<bar> < 2 ^ 53"
    and "reg \<in> set rf" "reg' \<in> set rf"
  then show "claveMes reg = claveMes reg' \<longleftrightarrow> anio reg = anio reg' \<and> mes reg = mes reg'"
    by (intro claveMes_inj) blast+
next
  fix kb reg
  assume r: "\<forall>reg \<in> set rf. \<bar>anio reg\<bar> < 2 ^ 53 \<and> \<bar>mes reg\<bar> < 2 ^ 53"
    and a: "kb \<in> set (agruparPorMes rf)" "reg \<in> set rf" "claveMes reg = fst kb"
  show "ejecutado (snd kb)
           = sumaLista (map ejecutado (filter (\<lambda>x. anio x = anio reg \<and> mes x = mes reg) rf))"
    using a r by (rule agruparPorMes_bucket)
  show "presupuestado (snd kb)
           = sumaLista (map presupuestado (filter (\<lambda>x. anio x = anio reg \<and> mes x = mes reg) rf))"
    using a r by (rule agruparPorMes_bucket)
  show "label (snd kb) = etiquetaMes (mes reg) @ '' '' @ cadena (anio reg)"
    using a r by (rule agruparPorMes_bucket)
next
  fix i j reg reg'
  assume h: "\<forall>reg \<in> set rf. \<forall>reg' \<in> set rf.
          0 \<le> anio reg \<and> anio reg < 2 ^ 53
          \<and> length (dec (anio reg)) = length (dec (anio reg'))
          \<and> 0 \<le> mes reg \<and> mes reg \<le> 99"
    and ij: "i < length (agruparPorMes rf)" "j < length (agruparPorMes rf)"
    and r: "reg \<in> set rf" "reg' \<in> set rf"
    and k: "fst (agruparPorMes rf ! i) = claveMes reg
            \<and> fst (agruparPorMes rf ! j) = claveMes reg'"
  from h r have o: "0 \<le> anio reg" "0 \<le> anio reg'"
      "length (dec (anio reg)) = length (dec (anio reg'))"
      "0 \<le> mes reg" "mes reg \<le> 99" "0 \<le> mes reg'" "mes reg' \<le> 99"
      "anio reg < 2 ^ 53" "anio reg' < 2 ^ 53"
    by blast+
  have "i < j \<longleftrightarrow> map fst (agruparPorMes rf) ! i < map fst (agruparPorMes rf) ! j"
    using ij by (intro estricto_nth agruparPorMes_claves) simp_all
  also have "\<dots> \<longleftrightarrow> claveMes reg < claveMes reg'"
    using ij k by simp
  also have "\<dots> \<longleftrightarrow> anio reg < anio reg' \<or> (anio reg = anio reg' \<and> mes reg < mes reg')"
    using o by (rule claveMes_orden)
  finally show "i < j \<longleftrightarrow> anio reg < anio reg' \<or> (anio reg = anio reg' \<and> mes reg < mes reg')" .
qed

theorem agruparPorMes_orden_witness:
  "map fst (agruparPorMes [REne2025, RDic2024, R1, R3]) = [''2024-01'', ''2024-12'', ''2025-01'']
   \<and> map (ejecutado \<circ> snd) (agruparPorMes [REne2025, RDic2024, R1, R3])
       = [Num 1900, Num 200, Num 450]
   \<and> map (label \<circ> snd) (agruparPorMes [REne2025, RDic2024, R1, R3])
       = [''Ene 2024'', ''Dic 2024'', ''Ene 2025'']
   \<and> sorted_wrt (<) (map fst (agruparPorMes [REne2025, RDic2024, R1, R3]))
   \<and> sumaLista (map ejecutado (filter (\<lambda>x. anio x = anio R1 \<and> mes x = mes R1)
        [REne2025, RDic2024, R1, R3])) = Num 1900
   \<and> ((1::nat) < 2 \<longleftrightarrow> anio RDic2024 < anio REne2025
                           \<or> (anio RDic2024 = anio REne2025 \<and> mes RDic2024 < mes REne2025))"
proof -
  let ?rf = "[REne2025, RDic2024, R1, R3]"
  have 1: "map fst (agruparPorMes ?rf) = [''2024-01'', ''2024-12'', ''2025-01'']"
    by code_simp
  have 2: "map (ejecutado \<circ> snd) (agruparPorMes ?rf) = [Num 1900, Num 200, Num 450]"
    by code_simp
  have 3: "map (label \<circ> snd) (agruparPorMes ?rf) = [''Ene 2024'', ''Dic 2024'', ''Ene 2025'']"
    by code_simp
  have d: "length (dec 2024) = 4" "length (dec 2025) = 4"
    by code_simp+
  have h: "\<forall>reg \<in> set ?rf. \<forall>reg' \<in> set ?rf.
          0 \<le> anio reg \<and> anio reg < 2 ^ 53
          \<and> length (dec (anio reg)) = length (dec (anio reg'))
          \<and> 0 \<le> mes reg \<and> mes reg \<le> 99"
    by (simp add: REne2025_def RDic2024_def R1_def R3_def d)
  have g: "\<forall>reg \<in> set ?rf. \<bar>anio reg\<bar> < 2 ^ 53 \<and> \<bar>mes reg\<bar> < 2 ^ 53"
    by (simp add: REne2025_def RDic2024_def R1_def R3_def)
  have k: "claveMes RDic2024 = ''2024-12''" "claveMes REne2025 = ''2025-01''"
    "claveMes R1 = ''2024-01''"
    by code_simp+
  have l: "length (map fst (agruparPorMes ?rf)) = 3"
    by (simp only: 1) simp
  have n: "fst (agruparPorMes ?rf ! 0) = map fst (agruparPorMes ?rf) ! 0"
       "fst (agruparPorMes ?rf ! 1) = map fst (agruparPorMes ?rf) ! 1"
       "fst (agruparPorMes ?rf ! 2) = map fst (agruparPorMes ?rf) ! 2"
       "ejecutado (snd (agruparPorMes ?rf ! 0)) = map (ejecutado \<circ> snd) (agruparPorMes ?rf) ! 0"
    using l by simp_all
  have e: "fst (agruparPorMes ?rf ! 1) = claveMes RDic2024
           \<and> fst (agruparPorMes ?rf ! 2) = claveMes REne2025"
    unfolding n by (simp only: 1 k) simp
  have e0: "claveMes R1 = fst (agruparPorMes ?rf ! 0)"
    "ejecutado (snd (agruparPorMes ?rf ! 0)) = Num 1900"
    unfolding n by (simp_all only: 1 2 k) simp_all
  have m0: "agruparPorMes ?rf ! 0 \<in> set (agruparPorMes ?rf)"
    using l by (intro nth_mem) simp
  note t = agruparPorMes_orden[of ?rf]
  from t have 4: "sorted_wrt (<) (map fst (agruparPorMes ?rf))"
    by (rule conjunct1)
  from t g have "\<forall>kb \<in> set (agruparPorMes ?rf). \<forall>reg \<in> set ?rf. claveMes reg = fst kb \<longrightarrow>
             ejecutado (snd kb)
               = sumaLista (map ejecutado
                   (filter (\<lambda>x. anio x = anio reg \<and> mes x = mes reg) ?rf))
             \<and> presupuestado (snd kb)
               = sumaLista (map presupuestado
                   (filter (\<lambda>x. anio x = anio reg \<and> mes x = mes reg) ?rf))
             \<and> label (snd kb) = etiquetaMes (mes reg) @ '' '' @ cadena (anio reg)"
    by blast
  moreover have "R1 \<in> set ?rf" by simp
  ultimately have "ejecutado (snd (agruparPorMes ?rf ! 0))
      = sumaLista (map ejecutado (filter (\<lambda>x. anio x = anio R1 \<and> mes x = mes R1) ?rf))"
    using m0 e0(1) by blast
  with e0(2) have 6: "sumaLista (map ejecutado (filter (\<lambda>x. anio x = anio R1 \<and> mes x = mes R1) ?rf))
      = Num 1900"
    by simp
  from t h have "\<forall>i < length (agruparPorMes ?rf). \<forall>j < length (agruparPorMes ?rf).
               \<forall>reg \<in> set ?rf. \<forall>reg' \<in> set ?rf.
                 fst (agruparPorMes ?rf ! i) = claveMes reg
                 \<and> fst (agruparPorMes ?rf ! j) = claveMes reg'
                 \<longrightarrow> (i < j \<longleftrightarrow>
                        anio reg < anio reg' \<or> (anio reg = anio reg' \<and> mes reg < mes reg'))"
    by blast
  moreover have "1 < length (agruparPorMes ?rf)" "2 < length (agruparPorMes ?rf)"
    using l by simp_all
  moreover have "RDic2024 \<in> set ?rf" "REne2025 \<in> set ?rf"
    by simp_all
  ultimately have 5: "(1::nat) < 2 \<longleftrightarrow> anio RDic2024 < anio REne2025
                           \<or> (anio RDic2024 = anio REne2025 \<and> mes RDic2024 < mes REne2025)"
    using e by blast
  from 1 2 3 4 6 5 show ?thesis by (intro conjI)
qed

section \<open>The ranking of projects\<close>

text \<open>The comparator puts a row before another exactly when its rank is lower.\<close>

lemma comparar_rango:
  assumes "ejecutado a \<noteq> NaN" "ejecutado b \<noteq> NaN"
  shows "comparar a b < 0 \<longleftrightarrow> rango a < rango b"
    and "comparar a b = 0 \<longleftrightarrow> rango a = rango b"
  using assms
  by (cases "ejecutado a"; cases "ejecutado b"; simp add: comparar_def rango_def)+

lemma rango_orden:
  assumes "ejecutado a \<noteq> NaN" "ejecutado b \<noteq> NaN"
  shows "rango a \<le> rango b \<longleftrightarrow> ejecutado b \<le> ejecutado a"
  using assms
  by (cases "ejecutado a"; cases "ejecutado b";
      simp add: rango_def less_eq_numero_def less_numero_def; linarith)

lemma ordenar_sin_NaN:
  "\<forall>a \<in> set xs. ejecutado a \<noteq> NaN \<Longrightarrow> ordenar xs = Some (sort_key rango xs)"
  by (simp add: ordenar_def list_all_iff)

lemma filasProyectos_map:
  "filasProyectos rf pm =
     map (\<lambda>km. \<lparr>presupuestado = presupuestado (snd km), ejecutado = ejecutado (snd km),
                  id_i = fst km, proy = leer pm (fst km),
                  pct = porcentaje (ejecutado (snd km)) (presupuestado (snd km))\<rparr>)
       (Object_entries
          (foldl (\<lambda>acc reg. acumular (id_proyecto reg)
                    \<lparr>presupuestado = Num 0, ejecutado = Num 0\<rparr> reg acc) [] rf))"
  by (simp add: filasProyectos_def case_prod_unfold)

text \<open>The rows before they are sorted: one per \<^verbatim>\<open>id_proyecto\<close> met.\<close>

lemma ranking_filas:
  fixes rf :: "registro list" and pm :: "string \<rightharpoonup> proyecto"
  defines "acc \<equiv> foldl (\<lambda>acc reg. acumular (id_proyecto reg)
                       \<lparr>presupuestado = Num 0, ejecutado = Num 0\<rparr> reg acc) [] rf"
  defines "fila \<equiv> (\<lambda>km :: string \<times> montos.
                    \<lparr>presupuestado = presupuestado (snd km), ejecutado = ejecutado (snd km),
                     id_i = fst km, proy = leer pm (fst km),
                     pct = porcentaje (ejecutado (snd km)) (presupuestado (snd km))\<rparr>)"
  defines "filas \<equiv> map fila (Object_entries acc)"
  shows "filasProyectos rf pm = filas"
    and "distinct (map id_i filas)"
    and "id_i ` set filas = id_proyecto ` set rf - set heredadas"
    and "length filas = card (id_proyecto ` set rf - set heredadas)"
    and "\<And>it. it \<in> set filas \<Longrightarrow>
           presupuestado it
             = sumaLista (map presupuestado (filter (\<lambda>reg. id_proyecto reg = id_i it) rf))
           \<and> ejecutado it
             = sumaLista (map ejecutado (filter (\<lambda>reg. id_proyecto reg = id_i it) rf))
           \<and> proy it = leer pm (id_i it)
           \<and> pct it = porcentaje (ejecutado it) (presupuestado it)"
proof -
  show "filasProyectos rf pm = filas"
    unfolding filas_def fila_def acc_def by (rule filasProyectos_map)
  have dacc: "distinct (map fst acc)"
    unfolding acc_def by (rule foldl_acumular_distinct) simp
  have kacc: "fst ` set acc = id_proyecto ` set rf - set heredadas"
    unfolding acc_def by (simp add: foldl_acumular_claves)
  have ids: "map id_i filas = map fst (Object_entries acc)"
    by (simp add: filas_def fila_def)
  show dfil: "distinct (map id_i filas)"
    unfolding ids using dacc by (rule distinct_Object_entries)
  have "id_i ` set filas = set (map id_i filas)"
    by simp
  also have "\<dots> = fst ` set acc"
    unfolding ids by (simp add: set_Object_entries)
  finally show sfil: "id_i ` set filas = id_proyecto ` set rf - set heredadas"
    using kacc by simp
  have "length filas = length (map id_i filas)" by simp
  also have "\<dots> = card (set (map id_i filas))"
    using dfil by (simp only: distinct_card)
  finally show "length filas = card (id_proyecto ` set rf - set heredadas)"
    using sfil by simp
  show "presupuestado it
             = sumaLista (map presupuestado (filter (\<lambda>reg. id_proyecto reg = id_i it) rf))
           \<and> ejecutado it
             = sumaLista (map ejecutado (filter (\<lambda>reg. id_proyecto reg = id_i it) rf))
           \<and> proy it = leer pm (id_i it)
           \<and> pct it = porcentaje (ejecutado it) (presupuestado it)"
    if "it \<in> set filas" for it
  proof -
    from that obtain km where km: "km \<in> set acc" "it = fila km"
      unfolding filas_def by (auto simp: set_Object_entries)
    from km(1) have "(fst km, snd km) \<in> set (foldl (\<lambda>acc reg. acumular (id_proyecto reg)
                       \<lparr>presupuestado = Num 0, ejecutado = Num 0\<rparr> reg acc) [] rf)"
      unfolding acc_def by simp
    from grupo_montos[OF _ _ this] km(2) show ?thesis
      by (simp add: fila_def)
  qed
qed

text \<open>
  Claim C4, as stated, is false: the amounts of a row are sums in binary64, rounded
  after every addition, and not the sums of the amounts. The project whose three
  records spend \<open>2 ^ 53\<close>, 1 and 1 is listed with \<open>2 ^ 53\<close>, which is 2 short of the sum.
\<close>

theorem top10Proyectos_counterexample:
  "map id_proyecto [RGrande, RUno, RUno] = [''P1'', ''P1'', ''P1'']
   \<and> map ejecutado [RGrande, RUno, RUno] = [Num 9007199254740992, Num 1, Num 1]
   \<and> map_option (map id_i) (top10Proyectos [RGrande, RUno, RUno] Map.empty) = Some [''P1'']
   \<and> map_option (map ejecutado) (top10Proyectos [RGrande, RUno, RUno] Map.empty)
       = Some [Num 9007199254740992]
   \<and> Num 9007199254740992 \<noteq> Num (9007199254740992 + 1 + 1)"
proof -
  have 1: "map id_proyecto [RGrande, RUno, RUno] = [''P1'', ''P1'', ''P1'']"
    "map ejecutado [RGrande, RUno, RUno] = [Num 9007199254740992, Num 1, Num 1]"
    by (simp_all add: RGrande_def RUno_def)
  have 2: "map_option (map id_i) (top10Proyectos [RGrande, RUno, RUno] Map.empty) = Some [''P1'']"
    "map_option (map ejecutado) (top10Proyectos [RGrande, RUno, RUno] Map.empty)
       = Some [Num 9007199254740992]"
    by code_simp+
  have 3: "Num 9007199254740992 \<noteq> Num (9007199254740992 + 1 + 1)"
    by simp
  from 1 2 3 show ?thesis by (intro conjI)
qed

text \<open>
  Claim C4, amended. Take records of which no \<^verbatim>\<open>id_proyecto\<close> names a member that every
  object inherits, and such that no project's summed \<^verbatim>\<open>ejecutado\<close> is \<^verbatim>\<open>NaN\<close>. Then
  \<^verbatim>\<open>top10Proyectos\<close> returns the first ten (all, when there are fewer) of the projects met
  in the records, without repetition, each with the sums of its records'
  \<^verbatim>\<open>presupuestado\<close> and \<^verbatim>\<open>ejecutado\<close>, as the language adds them in the order of the
  records, with what the lookup has for its id and with its percentage, in descending
  order of the summed \<^verbatim>\<open>ejecutado\<close>; no project left out has spent more than one that is
  listed. The list of the comparison chart is the first eight entries of that ranking:
  a prefix of it, and a strict one as soon as the ranking has more than eight entries.
\<close>

theorem top10Proyectos_ranking:
  assumes her: "\<forall>reg \<in> set rf. id_proyecto reg \<notin> set heredadas"
    and nan: "\<forall>reg \<in> set rf.
       sumaLista (map ejecutado (filter (\<lambda>x. id_proyecto x = id_proyecto reg) rf)) \<noteq> NaN"
  shows "\<exists>its. top10Proyectos rf pm = Some its
   \<and> renderChartPresupuesto_top rf pm = Some (take 8 its)
   \<and> length its = min 10 (card (id_proyecto ` set rf))
   \<and> sorted_wrt (\<lambda>a b. ejecutado b \<le> ejecutado a) its
   \<and> distinct (map id_i its)
   \<and> (\<forall>it \<in> set its.
         id_i it \<in> id_proyecto ` set rf
         \<and> presupuestado it
             = sumaLista (map presupuestado (filter (\<lambda>reg. id_proyecto reg = id_i it) rf))
         \<and> ejecutado it
             = sumaLista (map ejecutado (filter (\<lambda>reg. id_proyecto reg = id_i it) rf))
         \<and> proy it = leer pm (id_i it)
         \<and> pct it = porcentaje (ejecutado it) (presupuestado it))
   \<and> (\<forall>k \<in> id_proyecto ` set rf. k \<notin> id_i ` set its \<longrightarrow>
         (\<forall>it \<in> set its.
            sumaLista (map ejecutado (filter (\<lambda>reg. id_proyecto reg = k) rf)) \<le> ejecutado it))
   \<and> prefix (take 8 its) its
   \<and> length (take 8 its) = min 8 (card (id_proyecto ` set rf))
   \<and> (8 < length its \<longrightarrow> strict_prefix (take 8 its) its)"
proof -
  define filas where "filas =
       map (\<lambda>km :: string \<times> montos.
                 \<lparr>presupuestado = presupuestado (snd km), ejecutado = ejecutado (snd km),
                    id_i = fst km, proy = leer pm (fst km),
                    pct = porcentaje (ejecutado (snd km)) (presupuestado (snd km))\<rparr>)
          (Object_entries
             (foldl (\<lambda>acc reg. acumular (id_proyecto reg)
                       \<lparr>presupuestado = Num 0, ejecutado = Num 0\<rparr> reg acc) [] rf))"
  note r = ranking_filas[where rf = rf and pm = pm, folded filas_def]
  from her have ids: "id_proyecto ` set rf - set heredadas = id_proyecto ` set rf"
    by auto
  define todo where "todo = sort_key rango filas"
  define its where "its = take 10 todo"
  have sn: "ejecutado it \<noteq> NaN" if "it \<in> set filas" for it
  proof -
    from that have "id_i it \<in> id_i ` set filas" by blast
    then obtain reg where "reg \<in> set rf" "id_i it = id_proyecto reg"
      unfolding r(3) by auto
    with nan r(5)[OF that] show ?thesis by auto
  qed
  then have o: "ordenar filas = Some todo"
    unfolding todo_def by (intro ordenar_sin_NaN) blast
  have t: "top10Proyectos rf pm = Some its"
    unfolding top10Proyectos_def r(1) o its_def by simp
  have c: "renderChartPresupuesto_top rf pm = Some (take 8 its)"
    unfolding renderChartPresupuesto_top_def t by simp
  have st: "set todo = set filas" "length todo = length filas"
    unfolding todo_def by simp_all
  have "distinct filas" "inj_on id_i (set filas)"
    using r(2) by (simp_all only: distinct_map)
  then have dtodo: "distinct (map id_i todo)"
    unfolding todo_def by (simp add: distinct_map)
  have "sorted (map rango todo)"
    unfolding todo_def by (rule sorted_sort_key)
  then have "sorted_wrt (\<lambda>a b. rango a \<le> rango b) todo"
    by (simp add: sorted_map)
  then have stodo: "sorted_wrt (\<lambda>a b. ejecutado b \<le> ejecutado a) todo"
    by (rule sorted_wrt_mono_rel[rotated]) (simp add: rango_orden sn st(1))
  have sub: "set its \<subseteq> set todo"
    unfolding its_def by (rule set_take_subset)
  have len: "length its = min 10 (card (id_proyecto ` set rf))"
    unfolding its_def by (simp add: st(2) r(4) ids min.commute)
  have srt: "sorted_wrt (\<lambda>a b. ejecutado b \<le> ejecutado a) its"
    unfolding its_def using stodo by (rule sorted_wrt_take)
  have dis: "distinct (map id_i its)"
    unfolding its_def take_map[symmetric] using dtodo by (rule distinct_take)
  have fil: "id_i it \<in> id_proyecto ` set rf
         \<and> presupuestado it
             = sumaLista (map presupuestado (filter (\<lambda>reg. id_proyecto reg = id_i it) rf))
         \<and> ejecutado it
             = sumaLista (map ejecutado (filter (\<lambda>reg. id_proyecto reg = id_i it) rf))
         \<and> proy it = leer pm (id_i it)
         \<and> pct it = porcentaje (ejecutado it) (presupuestado it)"
    if "it \<in> set its" for it
  proof -
    from that sub st(1) have i: "it \<in> set filas" by blast
    then have "id_i it \<in> id_i ` set filas" by blast
    with r(3) r(5)[OF i] ids show ?thesis by simp
  qed
  have fuera: "sumaLista (map ejecutado (filter (\<lambda>reg. id_proyecto reg = k) rf)) \<le> ejecutado it"
    if k: "k \<in> id_proyecto ` set rf" "k \<notin> id_i ` set its" and it: "it \<in> set its" for k it
  proof -
    from k(1) r(3) ids st(1) have "k \<in> id_i ` set todo" by simp
    then obtain j where j: "j \<in> set todo" "id_i j = k" by (auto simp: image_iff)
    with k(2) have "j \<notin> set (take 10 todo)" unfolding its_def by auto
    with j(1) have jd: "j \<in> set (drop 10 todo)"
      by (metis append_take_drop_id set_append Un_iff)
    from stodo have "sorted_wrt (\<lambda>a b. ejecutado b \<le> ejecutado a) (take 10 todo @ drop 10 todo)"
      by simp
    then have "ejecutado j \<le> ejecutado it"
      using it jd unfolding its_def sorted_wrt_append by blast
    moreover from j(1) st(1) have "j \<in> set filas" by simp
    ultimately show ?thesis
      using r(5)[of j] j(2) by simp
  qed
  have pre: "prefix (take 8 its) its"
    by (rule take_is_prefix)
  have len8: "length (take 8 its) = min 8 (card (id_proyecto ` set rf))"
    by (simp add: len)
  have spre: "strict_prefix (take 8 its) its" if "8 < length its"
  proof -
    from that have "length (take 8 its) \<noteq> length its"
      by simp
    then have "take 8 its \<noteq> its" by auto
    with pre show ?thesis by (simp add: strict_prefix_def)
  qed
  have "top10Proyectos rf pm = Some its
   \<and> renderChartPresupuesto_top rf pm = Some (take 8 its)
   \<and> length its = min 10 (card (id_proyecto ` set rf))
   \<and> sorted_wrt (\<lambda>a b. ejecutado b \<le> ejecutado a) its
   \<and> distinct (map id_i its)
   \<and> (\<forall>it \<in> set its.
         id_i it \<in> id_proyecto ` set rf
         \<and> presupuestado it
             = sumaLista (map presupuestado (filter (\<lambda>reg. id_proyecto reg = id_i it) rf))
         \<and> ejecutado it
             = sumaLista (map ejecutado (filter (\<lambda>reg. id_proyecto reg = id_i it) rf))
         \<and> proy it = leer pm (id_i it)
         \<and> pct it = porcentaje (ejecutado it) (presupuestado it))
   \<and> (\<forall>k \<in> id_proyecto ` set rf. k \<notin> id_i ` set its \<longrightarrow>
         (\<forall>it \<in> set its.
            sumaLista (map ejecutado (filter (\<lambda>reg. id_proyecto reg = k) rf)) \<le> ejecutado it))
   \<and> prefix (take 8 its) its
   \<and> length (take 8 its) = min 8 (card (id_proyecto ` set rf))
   \<and> (8 < length its \<longrightarrow> strict_prefix (take 8 its) its)"
  proof (intro conjI ballI impI)
    show "top10Proyectos rf pm = Some its" by (rule t)
    show "renderChartPresupuesto_top rf pm = Some (take 8 its)" by (rule c)
    show "length its = min 10 (card (id_proyecto ` set rf))" by (rule len)
    show "sorted_wrt (\<lambda>a b. ejecutado b \<le> ejecutado a) its" by (rule srt)
    show "distinct (map id_i its)" by (rule dis)
    show "prefix (take 8 its) its" by (rule pre)
    show "length (take 8 its) = min 8 (card (id_proyecto ` set rf))" by (rule len8)
  next
    fix it assume "it \<in> set its"
    from fil[OF this]
    show "id_i it \<in> id_proyecto ` set rf"
      and "presupuestado it
             = sumaLista (map presupuestado (filter (\<lambda>reg. id_proyecto reg = id_i it) rf))"
      and "ejecutado it
             = sumaLista (map ejecutado (filter (\<lambda>reg. id_proyecto reg = id_i it) rf))"
      and "proy it = leer pm (id_i it)"
      and "pct it = porcentaje (ejecutado it) (presupuestado it)"
      by simp_all
  next
    fix k it
    assume "k \<in> id_proyecto ` set rf" "k \<notin> id_i ` set its" "it \<in> set its"
    then show "sumaLista (map ejecutado (filter (\<lambda>reg. id_proyecto reg = k) rf)) \<le> ejecutado it"
      by (rule fuera)
  next
    assume "8 < length its"
    then show "strict_prefix (take 8 its) its" by (rule spre)
  qed
  then show ?thesis by (rule exI)
qed

theorem top10Proyectos_ranking_witness:
  "map_option (map id_i) (top10Proyectos registrosOnce Map.empty)
     = Some [''Q11'', ''Q10'', ''Q9'', ''Q8'', ''Q7'', ''Q6'', ''Q5'', ''Q4'', ''Q3'', ''Q2'']
   \<and> map_option (map ejecutado) (top10Proyectos registrosOnce Map.empty)
     = Some [Num 110, Num 100, Num 90, Num 80, Num 70, Num 60, Num 50, Num 40, Num 30, Num 20]
   \<and> map_option (map id_i) (renderChartPresupuesto_top registrosOnce Map.empty)
     = Some [''Q11'', ''Q10'', ''Q9'', ''Q8'', ''Q7'', ''Q6'', ''Q5'', ''Q4'']
   \<and> map_option length (top10Proyectos registrosOnce Map.empty) = Some 10
   \<and> map_option (strict_prefix (the (renderChartPresupuesto_top registrosOnce Map.empty)))
        (top10Proyectos registrosOnce Map.empty) = Some True"
proof -
  have h0: "list_all (\<lambda>reg. id_proyecto reg \<notin> set heredadas) registrosOnce"
    by code_simp
  then have h: "\<forall>reg \<in> set registrosOnce. id_proyecto reg \<notin> set heredadas"
    by (simp only: list_all_iff)
  have "list_all (\<lambda>reg.
        sumaLista (map ejecutado (filter (\<lambda>x. id_proyecto x = id_proyecto reg) registrosOnce))
          \<noteq> NaN) registrosOnce"
    by code_simp
  then have n: "\<forall>reg \<in> set registrosOnce.
        sumaLista (map ejecutado (filter (\<lambda>x. id_proyecto x = id_proyecto reg) registrosOnce))
          \<noteq> NaN"
    by (simp only: list_all_iff)
  have 1: "map_option (map id_i) (top10Proyectos registrosOnce Map.empty)
     = Some [''Q11'', ''Q10'', ''Q9'', ''Q8'', ''Q7'', ''Q6'', ''Q5'', ''Q4'', ''Q3'', ''Q2'']"
    by code_simp
  from top10Proyectos_ranking[OF h n, of Map.empty]
  obtain its where i: "top10Proyectos registrosOnce Map.empty = Some its"
    "renderChartPresupuesto_top registrosOnce Map.empty = Some (take 8 its)"
    "8 < length its \<longrightarrow> strict_prefix (take 8 its) its"
    "\<forall>it \<in> set its. ejecutado it
        = sumaLista (map ejecutado (filter (\<lambda>reg. id_proyecto reg = id_i it) registrosOnce))"
    by blast
  from 1 i(1) have m: "map id_i its
     = [''Q11'', ''Q10'', ''Q9'', ''Q8'', ''Q7'', ''Q6'', ''Q5'', ''Q4'', ''Q3'', ''Q2'']"
    by simp
  have "length (map id_i its) = 10"
    by (simp only: m) simp
  then have l: "length its = 10" by simp
  with i(3) have s: "strict_prefix (take 8 its) its" by simp
  from i(4) have "map ejecutado its
      = map (\<lambda>k. sumaLista (map ejecutado (filter (\<lambda>reg. id_proyecto reg = k) registrosOnce)))
          (map id_i its)"
    by (simp add: comp_def)
  also have "\<dots> = [Num 110, Num 100, Num 90, Num 80, Num 70, Num 60, Num 50, Num 40, Num 30, Num 20]"
    unfolding m by code_simp
  finally have 2: "map_option (map ejecutado) (top10Proyectos registrosOnce Map.empty)
     = Some [Num 110, Num 100, Num 90, Num 80, Num 70, Num 60, Num 50, Num 40, Num 30, Num 20]"
    by (simp add: i(1))
  have "map id_i (take 8 its) = take 8 (map id_i its)"
    by (simp add: take_map)
  also have "\<dots> = [''Q11'', ''Q10'', ''Q9'', ''Q8'', ''Q7'', ''Q6'', ''Q5'', ''Q4'']"
    by (simp only: m) simp
  finally have 3: "map_option (map id_i) (renderChartPresupuesto_top registrosOnce Map.empty)
     = Some [''Q11'', ''Q10'', ''Q9'', ''Q8'', ''Q7'', ''Q6'', ''Q5'', ''Q4'']"
    by (simp add: i(2))
  have 4: "map_option length (top10Proyectos registrosOnce Map.empty) = Some 10"
    by (simp add: i(1) l)
  have 5: "map_option (strict_prefix (the (renderChartPresupuesto_top registrosOnce Map.empty)))
        (top10Proyectos registrosOnce Map.empty) = Some True"
    by (simp add: i(1,2) s)
  from 1 2 3 4 5 show ?thesis by (intro conjI)
qed

section \<open>Formatting amounts\<close>

lemma redondeo_cerca: "\<bar>of_int \<lfloor>y + 1 / 2\<rfloor> - y\<bar> \<le> 1 / 2" for y :: rat
proof -
  have "of_int \<lfloor>y + 1 / 2\<rfloor> \<le> y + 1 / 2" "y + 1 / 2 < of_int \<lfloor>y + 1 / 2\<rfloor> + 1"
    by linarith+
  then show ?thesis
    by linarith
qed

lemma char_of_48: "char_of (48 :: int) = CHR ''0''"
  by (simp add: char_of_def)

lemma toFixed_0:
  "\<bar>x\<bar> < 10 ^ 21 \<Longrightarrow> toFixed 0 x = (if x < 0 then ''-'' else []) @ dec \<lfloor>\<bar>x\<bar> + 1 / 2\<rfloor>"
  by (simp add: toFixed_def Let_def)


lemma toFixed_1:
  assumes "0 \<le> x" "x < 10 ^ 21"
  shows "toFixed 1 x = dec (\<lfloor>x * 10 + 1 / 2\<rfloor> div 10) @ ''.'' @ dec (\<lfloor>x * 10 + 1 / 2\<rfloor> mod 10)"
proof -
  define n where "n = \<lfloor>x * 10 + 1 / 2\<rfloor>"
  have n0: "0 \<le> n"
    using assms(1) by (simp add: n_def)
  show ?thesis
  proof (cases "n < 10")
    case True
    with n0 have "n div 10 = 0" "n mod 10 = n" by simp_all
    with True have "dec n = [char_of (48 + n)]" "dec (n div 10) = ''0''"
        "dec (n mod 10) = [char_of (48 + n)]"
      by (simp_all add: dec_menor char_of_48)
    with assms show ?thesis
      unfolding n_def by (simp add: toFixed_def Let_def)
  next
    case False
    then have d: "dec n = dec (n div 10) @ [char_of (48 + n mod 10)]"
      by (simp add: dec_mayor)
    from False have "dec (n div 10) \<noteq> []"
      by (simp add: dec_digitos)
    then obtain c cs where c: "dec (n div 10) = c # cs"
      by (cases "dec (n div 10)") simp_all
    have m: "dec (n mod 10) = [char_of (48 + n mod 10)]"
      by (simp add: dec_menor)
    from assms d c m show ?thesis
      unfolding n_def by (simp add: toFixed_def Let_def)
  qed
qed

text \<open>
  Claim C9, as stated, is false: from \<open>10 ^ 27\<close> on, the quotient by a million reaches
  \<open>10 ^ 21\<close> and \<^verbatim>\<open>toFixed\<close> answers in exponent notation, without a decimal place.
\<close>

theorem fmtUSD_counterexample:
  "1000000 \<le> fl (10 ^ 27) \<and> fmtUSD (fl (10 ^ 27)) = ''$1e+21M''"
proof -
  have 1: "1000000 \<le> fl (10 ^ 27)"
    by code_simp
  have 2: "fmtUSD (fl (10 ^ 27)) = ''$1e+21M''"
    by code_simp
  from 1 2 show ?thesis by (intro conjI)
qed

text \<open>
  Claim C9, amended. For \<open>v\<close> of at least a million whose quotient by a million, as the
  language computes it, stays below \<open>10 ^ 21\<close>, \<^verbatim>\<open>fmtUSD\<close> gives \<^verbatim>\<open>$\<close>, the quotient
  rounded to the nearest tenth with exactly one digit after the point, and \<^verbatim>\<open>M\<close>. From a
  thousand up to a million it gives \<^verbatim>\<open>$\<close>, the quotient by a thousand rounded to the
  nearest integer, and \<^verbatim>\<open>K\<close>. Below a thousand it gives \<^verbatim>\<open>$\<close> and \<^verbatim>\<open>v.toFixed(0)\<close>, which
  is \<open>v\<close> rounded to the nearest integer, after its sign, while \<open>v\<close> is above \<open>- 10 ^ 21\<close>.
  Each computed quotient is within one part in \<open>2 ^ 53\<close> of the exact one.
\<close>

theorem fmtUSD_formato:
  "(1000000 \<le> v \<and> fl (v / 1000000) < 10 ^ 21 \<longrightarrow>
      (let n = \<lfloor>fl (v / 1000000) * 10 + 1 / 2\<rfloor>
       in fmtUSD v = ''$'' @ dec (n div 10) @ ''.'' @ dec (n mod 10) @ ''M''
        \<and> length (dec (n mod 10)) = 1
        \<and> \<bar>of_int n / 10 - fl (v / 1000000)\<bar> \<le> 1 / 20
        \<and> \<bar>fl (v / 1000000) - v / 1000000\<bar> \<le> (v / 1000000) / 2 ^ 53))
   \<and> (1000 \<le> v \<and> v < 1000000 \<longrightarrow>
      (let n = \<lfloor>fl (v / 1000) + 1 / 2\<rfloor>
       in fmtUSD v = ''$'' @ dec n @ ''K''
        \<and> \<bar>of_int n - fl (v / 1000)\<bar> \<le> 1 / 2
        \<and> \<bar>fl (v / 1000) - v / 1000\<bar> \<le> (v / 1000) / 2 ^ 53))
   \<and> (v < 1000 \<longrightarrow> fmtUSD v = ''$'' @ toFixed 0 v)
   \<and> (v < 1000 \<and> \<bar>v\<bar> < 10 ^ 21 \<longrightarrow>
      fmtUSD v = ''$'' @ (if v < 0 then ''-'' else []) @ dec \<lfloor>\<bar>v\<bar> + 1 / 2\<rfloor>
      \<and> \<bar>of_int \<lfloor>\<bar>v\<bar> + 1 / 2\<rfloor> - \<bar>v\<bar>\<bar> \<le> 1 / 2)"
proof (intro conjI impI)
  assume a: "1000000 \<le> v \<and> fl (v / 1000000) < 10 ^ 21"
  define x where "x = fl (v / 1000000)"
  define n where "n = \<lfloor>x * 10 + 1 / 2\<rfloor>"
  from a have q: "0 < v / 1000000" by simp
  then have x0: "0 \<le> x"
    unfolding x_def by (intro fl_nonneg) simp
  from a have x1: "x < 10 ^ 21" by (simp add: x_def)
  have 1: "fmtUSD v = ''$'' @ dec (n div 10) @ ''.'' @ dec (n mod 10) @ ''M''"
    using a toFixed_1[OF x0 x1] by (simp add: fmtUSD_def x_def n_def)
  have 2: "length (dec (n mod 10)) = 1"
    by (simp add: dec_menor)
  have "\<bar>of_int n - x * 10\<bar> \<le> 1 / 2"
    unfolding n_def by (rule redondeo_cerca)
  then have 3: "\<bar>of_int n / 10 - x\<bar> \<le> 1 / 20"
    by (simp add: abs_le_iff field_simps)
  have 4: "\<bar>x - v / 1000000\<bar> \<le> (v / 1000000) / 2 ^ 53"
    unfolding x_def using fl_positivo(2)[OF q] .
  from 1 2 3 4 show "let n = \<lfloor>fl (v / 1000000) * 10 + 1 / 2\<rfloor>
       in fmtUSD v = ''$'' @ dec (n div 10) @ ''.'' @ dec (n mod 10) @ ''M''
        \<and> length (dec (n mod 10)) = 1
        \<and> \<bar>of_int n / 10 - fl (v / 1000000)\<bar> \<le> 1 / 20
        \<and> \<bar>fl (v / 1000000) - v / 1000000\<bar> \<le> (v / 1000000) / 2 ^ 53"
    unfolding Let_def n_def x_def by (intro conjI)
next
  assume a: "1000 \<le> v \<and> v < 1000000"
  define x where "x = fl (v / 1000)"
  from a have q: "0 < v / 1000" by simp
  then have x0: "0 \<le> x"
    unfolding x_def by (intro fl_nonneg) simp
  have "x \<le> 2 * (v / 1000)"
    unfolding x_def using q by (intro fl_cota) simp
  with a have x1: "\<bar>x\<bar> < 10 ^ 21"
    using x0 by simp
  have 1: "fmtUSD v = ''$'' @ dec \<lfloor>x + 1 / 2\<rfloor> @ ''K''"
    using a toFixed_0[OF x1] x0 by (simp add: fmtUSD_def x_def)
  have 2: "\<bar>of_int \<lfloor>x + 1 / 2\<rfloor> - x\<bar> \<le> 1 / 2"
    by (rule redondeo_cerca)
  have 3: "\<bar>x - v / 1000\<bar> \<le> (v / 1000) / 2 ^ 53"
    unfolding x_def using fl_positivo(2)[OF q] .
  from 1 2 3 show "let n = \<lfloor>fl (v / 1000) + 1 / 2\<rfloor>
       in fmtUSD v = ''$'' @ dec n @ ''K''
        \<and> \<bar>of_int n - fl (v / 1000)\<bar> \<le> 1 / 2
        \<and> \<bar>fl (v / 1000) - v / 1000\<bar> \<le> (v / 1000) / 2 ^ 53"
    unfolding Let_def x_def by (intro conjI)
next
  assume "v < 1000"
  then show "fmtUSD v = ''$'' @ toFixed 0 v"
    by (simp add: fmtUSD_def)
next
  assume a: "v < 1000 \<and> \<bar>v\<bar> < 10 ^ 21"
  then have "\<bar>v\<bar> < 10 ^ 21" by simp
  from toFixed_0[OF this] a
  show "fmtUSD v = ''$'' @ (if v < 0 then ''-'' else []) @ dec \<lfloor>\<bar>v\<bar> + 1 / 2\<rfloor>"
    by (simp add: fmtUSD_def)
  show "\<bar>of_int \<lfloor>\<bar>v\<bar> + 1 / 2\<rfloor> - \<bar>v\<bar>\<bar> \<le> 1 / 2"
    by (rule redondeo_cerca)
qed

theorem fmtUSD_formato_witness:
  "(1000000 :: rat) \<le> 1150000 \<and> fl (1150000 / 1000000) < 10 ^ 21
   \<and> fmtUSD 1150000 = ''$1.1M''
   \<and> (1000 :: rat) \<le> 999500 \<and> (999500 :: rat) < 1000000
   \<and> fmtUSD 999500 = ''$1000K''
   \<and> (1999 / 2 :: rat) < 1000 \<and> \<bar>1999 / 2 :: rat\<bar> < 10 ^ 21
   \<and> fmtUSD (1999 / 2) = ''$1000''"
proof -
  have h1: "(1000000 :: rat) \<le> 1150000 \<and> fl (1150000 / 1000000) < 10 ^ 21"
    by code_simp
  have n1: "\<lfloor>fl (1150000 / 1000000) * 10 + 1 / 2\<rfloor> = 11"
    by code_simp
  have d1: "dec 1 = ''1''" "dec 999 = ''999''"
    by code_simp+
  from fmtUSD_formato[of 1150000] h1
  have "let n = \<lfloor>fl (1150000 / 1000000) * 10 + 1 / 2\<rfloor>
        in fmtUSD 1150000 = ''$'' @ dec (n div 10) @ ''.'' @ dec (n mod 10) @ ''M''"
    unfolding Let_def by blast
  then have 1: "fmtUSD 1150000 = ''$1.1M''"
    unfolding Let_def n1 by (simp add: d1)
  have h2: "(1000 :: rat) \<le> 999500 \<and> (999500 :: rat) < 1000000"
    by simp
  have n2: "\<lfloor>fl (999500 / 1000) + 1 / 2\<rfloor> = 1000"
    by code_simp
  have d2: "dec 1000 = ''1000''"
    by code_simp
  from fmtUSD_formato[of 999500] h2
  have "let n = \<lfloor>fl (999500 / 1000) + 1 / 2\<rfloor> in fmtUSD 999500 = ''$'' @ dec n @ ''K''"
    unfolding Let_def by blast
  then have 2: "fmtUSD 999500 = ''$1000K''"
    unfolding Let_def n2 by (simp add: d2)
  have h3: "(1999 / 2 :: rat) < 1000 \<and> \<bar>1999 / 2 :: rat\<bar> < 10 ^ 21"
    by simp
  have n3: "\<lfloor>\<bar>1999 / 2 :: rat\<bar> + 1 / 2\<rfloor> = 1000"
    by simp
  from fmtUSD_formato[of "1999 / 2"] h3
  have "fmtUSD (1999 / 2) = ''$'' @ (if (1999 / 2 :: rat) < 0 then ''-'' else []) @ dec \<lfloor>\<bar>1999 / 2 :: rat\<bar> + 1 / 2\<rfloor>"
    by blast
  then have 3: "fmtUSD (1999 / 2) = ''$1000''"
    unfolding n3 by (simp add: d2)
  from h1 1 h2 2 h3 3 show ?thesis by (intro conjI) simp_all
qed







end
